theory Spec2Isabelle
  imports Main
begin

section \<open>Python strings\<close>

text \<open>
  A Python \<open>str\<close> is a sequence of Unicode code points. A code point is modelled as a
  natural number and a string as a list of code points, so that \<open>length\<close> counts what
  Python's \<open>len\<close> counts. \<open>u ''abc''\<close> is the Python literal \<open>"abc"\<close>.
\<close>

type_synonym pychar = nat
type_synonym pystr = "pychar list"

definition u :: "string \<Rightarrow> pystr" where
  "u s = map of_char s"

text \<open>
  \<open>str.strip()\<close> without argument removes the characters for which \<open>str.isspace()\<close>
  holds (CPython 3.11): TAB..CR, FS..US, SPACE, NEL, NBSP, and the Unicode space
  separators.
\<close>

definition is_space :: "pychar \<Rightarrow> bool" where
  "is_space c \<longleftrightarrow>
     (9 \<le> c \<and> c \<le> 13) \<or> (28 \<le> c \<and> c \<le> 32) \<or> c = 133 \<or> c = 160 \<or> c = 5760 \<or>
     (8192 \<le> c \<and> c \<le> 8202) \<or> c = 8232 \<or> c = 8233 \<or> c = 8239 \<or> c = 8287 \<or> c = 12288"

definition py_strip :: "pystr \<Rightarrow> pystr" where
  "py_strip s = rev (dropWhile is_space (rev (dropWhile is_space s)))"

text \<open>
  \<open>str.split(sep)\<close> for a one-character separator: the pieces between the occurrences
  of \<open>sep\<close>; the empty string gives one empty piece.
\<close>

fun py_split :: "pychar \<Rightarrow> pystr \<Rightarrow> pystr list" where
  "py_split sep [] = [[]]"
| "py_split sep (c # cs) =
     (if c = sep then [] # py_split sep cs
      else (case py_split sep cs of [] \<Rightarrow> [[c]] | p # ps \<Rightarrow> (c # p) # ps))"

text \<open>
  The Unicode decimal digits (general category Nd, Unicode 14) come in runs of ten
  consecutive code points, digit zero first; \<open>nd_zeros\<close> lists the zero of every run.
  \<open>decimal_value c\<close> is the digit value of \<open>c\<close> when \<open>c\<close> is a decimal digit.
\<close>

definition nd_zeros :: "pychar list" where
  "nd_zeros =
     [48, 1632, 1776, 1984, 2406, 2534, 2662, 2790, 2918, 3046, 3174, 3302, 3430, 3558,
      3664, 3792, 3872, 4160, 4240, 6112, 6160, 6470, 6608, 6784, 6800, 6992, 7088, 7232,
      7248, 42528, 43216, 43264, 43472, 43504, 43600, 44016, 65296, 66720, 68912, 69734,
      69872, 69942, 70096, 70384, 70736, 70864, 71248, 71360, 71472, 71904, 72016, 72784,
      73040, 73120, 92768, 92864, 93008, 120782, 120792, 120802, 120812, 120822, 123200,
      123632, 125264, 130032]"

definition decimal_value :: "pychar \<Rightarrow> nat option" where
  "decimal_value c =
     (case filter (\<lambda>z. z \<le> c \<and> c < z + 10) nd_zeros of
        [] \<Rightarrow> None
      | z # _ \<Rightarrow> Some (c - z))"

definition is_decimal :: "pychar \<Rightarrow> bool" where
  "is_decimal c \<longleftrightarrow> decimal_value c \<noteq> None"

section \<open>Regular expressions\<close>

text \<open>
  The fragment of Python's \<open>re\<close> syntax that the version pattern uses: a literal
  character, a range \<open>[a-b]\<close>, the class \<open>\d\<close> (on a \<open>str\<close> pattern: every Unicode
  decimal digit), alternation, concatenation and \<open>*\<close>. \<open>Never\<close> and \<open>Empty\<close> are
  the regular expressions of no string and of the empty string; derivatives need them.
\<close>

datatype cclass = Lit pychar | Range pychar pychar | Digit

fun in_class :: "cclass \<Rightarrow> pychar \<Rightarrow> bool" where
  "in_class (Lit a) c \<longleftrightarrow> c = a"
| "in_class (Range a b) c \<longleftrightarrow> a \<le> c \<and> c \<le> b"
| "in_class Digit c \<longleftrightarrow> is_decimal c"

datatype regex =
    Never
  | Empty
  | Sym cclass
  | Alt regex regex
  | Seq regex regex
  | Star regex

fun nullable :: "regex \<Rightarrow> bool" where
  "nullable Never \<longleftrightarrow> False"
| "nullable Empty \<longleftrightarrow> True"
| "nullable (Sym k) \<longleftrightarrow> False"
| "nullable (Alt r s) \<longleftrightarrow> nullable r \<or> nullable s"
| "nullable (Seq r s) \<longleftrightarrow> nullable r \<and> nullable s"
| "nullable (Star r) \<longleftrightarrow> True"

fun deriv :: "pychar \<Rightarrow> regex \<Rightarrow> regex" where
  "deriv c Never = Never"
| "deriv c Empty = Never"
| "deriv c (Sym k) = (if in_class k c then Empty else Never)"
| "deriv c (Alt r s) = Alt (deriv c r) (deriv c s)"
| "deriv c (Seq r s) =
     (if nullable r then Alt (Seq (deriv c r) s) (deriv c s) else Seq (deriv c r) s)"
| "deriv c (Star r) = Seq (deriv c r) (Star r)"

fun matches :: "regex \<Rightarrow> pystr \<Rightarrow> bool" where
  "matches r [] \<longleftrightarrow> nullable r"
| "matches r (c # cs) \<longleftrightarrow> matches (deriv c r) cs"

text \<open>
  \<open>re.match\<close> of a pattern \<open>^body$\<close> (no flags): the match starts at position 0, where
  \<open>^\<close> holds; \<open>$\<close> holds at the end of the string and also just before a newline
  that is the last character. So the body has to match the whole string, or the whole
  string without its final newline.
\<close>

definition re_match_anchored :: "regex \<Rightarrow> pystr \<Rightarrow> bool" where
  "re_match_anchored body s \<longleftrightarrow>
     matches body s \<or> (s \<noteq> [] \<and> last s = 10 \<and> matches body (butlast s))"

section \<open>validate_semantic_version\<close>

text \<open>The group \<open>(0|[1-9]\d*)\<close> and the body of the pattern between \<open>^\<close> and \<open>$\<close>.\<close>

definition number_group :: regex where
  "number_group = Alt (Sym (Lit 48)) (Seq (Sym (Range 49 57)) (Star (Sym Digit)))"

definition pattern :: regex where
  "pattern =
     Seq number_group (Seq (Sym (Lit 46)) (Seq number_group (Seq (Sym (Lit 46)) number_group)))"

definition validate_semantic_version :: "pystr \<Rightarrow> bool" where
  "validate_semantic_version version \<longleftrightarrow> re_match_anchored pattern (py_strip version)"

section \<open>int() on a string\<close>

text \<open>
  \<open>int(s)\<close> for a \<open>str\<close> argument, base 10, as CPython 3.11 computes it. The string is first brought to
  ASCII: a code point below 127 stays as it is, a Unicode space above becomes a blank, a
  Unicode decimal digit becomes the ASCII digit of its value, anything else becomes
  \<open>?\<close>. The ASCII text is then read as: C-locale white space (TAB..CR and blank), an
  optional sign, decimal digits with single underscores between digits, white space, end
  of text. Anything else raises \<open>ValueError\<close>. The separators FS..US (28..31) are below
  127 and not C-locale white space: \<open>str.strip\<close> removes them, \<open>int\<close> rejects them.
  Integers are unbounded, but the conversion refuses a text of more digits than
  \<open>sys.get_int_max_str_digits()\<close>, 4300 unless it is set otherwise, which the module
  never does. The digits are counted, leading zeros included, once they are known to be
  well formed and before the rest of the text is looked at.
\<close>

definition int_max_str_digits :: nat where
  "int_max_str_digits = 4300"

definition to_ascii :: "pychar \<Rightarrow> pychar" where
  "to_ascii c =
     (if c < 127 then c
      else if is_space c then 32
      else (case decimal_value c of Some d \<Rightarrow> 48 + d | None \<Rightarrow> 63))"

definition c_isspace :: "pychar \<Rightarrow> bool" where
  "c_isspace c \<longleftrightarrow> (9 \<le> c \<and> c \<le> 13) \<or> c = 32"

definition ascii_digit :: "pychar \<Rightarrow> bool" where
  "ascii_digit c \<longleftrightarrow> 48 \<le> c \<and> c \<le> 57"

text \<open>
  \<open>digits_value acc prev cs\<close> reads digits and underscores to the end of \<open>cs\<close>;
  \<open>prev\<close> tells whether the character before was a digit, which an underscore and
  the end of the text both need.
\<close>

fun digits_value :: "nat \<Rightarrow> bool \<Rightarrow> pystr \<Rightarrow> nat option" where
  "digits_value acc prev [] = (if prev then Some acc else None)"
| "digits_value acc prev (c # cs) =
     (if ascii_digit c then digits_value (10 * acc + (c - 48)) True cs
      else if c = 95 \<and> prev then digits_value acc False cs
      else None)"

text \<open>
  The exceptions of the model. \<open>UnicodeEncodeError\<close> is a subclass of \<open>ValueError\<close>
  in Python, like the errors of \<open>int\<close>.
\<close>

datatype value_error =
    BothVersionsInvalid
  | InvalidLiteral pystr
  | DigitLimit nat
  | UnicodeEncodeError

datatype py_error = ValueError value_error | IndexError

definition py_int :: "pystr \<Rightarrow> py_error + int" where
  "py_int s =
     (let t = dropWhile c_isspace (map to_ascii s);
          neg = (t \<noteq> [] \<and> hd t = 45);
          t1 = (if t \<noteq> [] \<and> (hd t = 43 \<or> hd t = 45) then tl t else t);
          body = takeWhile (\<lambda>c. ascii_digit c \<or> c = 95) t1;
          rest = dropWhile (\<lambda>c. ascii_digit c \<or> c = 95) t1
      in case digits_value 0 False body of
           None \<Rightarrow> Inl (ValueError (InvalidLiteral s))
         | Some n \<Rightarrow>
             if int_max_str_digits < length (filter ascii_digit body)
             then Inl (ValueError (DigitLimit (length (filter ascii_digit body))))
             else if dropWhile c_isspace rest \<noteq> [] then Inl (ValueError (InvalidLiteral s))
             else Inr (if neg then - int n else int n))"

section \<open>compare_versions\<close>

text \<open>\<open>xs[i]\<close> for a non-negative index: out of range raises \<open>IndexError\<close>.\<close>

definition item :: "'a list \<Rightarrow> nat \<Rightarrow> py_error + 'a" where
  "item xs i = (if i < length xs then Inr (xs ! i) else Inl IndexError)"

text \<open>
  The nested \<open>parse_version\<close>: the tuple's components are evaluated left to right, each
  as \<open>int(parts[i])\<close>, and the first exception ends the evaluation.
\<close>

definition parse_version :: "pystr \<Rightarrow> py_error + (int \<times> int \<times> int)" where
  "parse_version version =
     (let parts = py_split 46 version in
      (case item parts 0 of Inl e \<Rightarrow> Inl e | Inr p0 \<Rightarrow>
      (case py_int p0 of Inl e \<Rightarrow> Inl e | Inr major \<Rightarrow>
      (case item parts 1 of Inl e \<Rightarrow> Inl e | Inr p1 \<Rightarrow>
      (case py_int p1 of Inl e \<Rightarrow> Inl e | Inr minor \<Rightarrow>
      (case item parts 2 of Inl e \<Rightarrow> Inl e | Inr p2 \<Rightarrow>
      (case py_int p2 of Inl e \<Rightarrow> Inl e | Inr patch \<Rightarrow>
         Inr (major, minor, patch))))))))"

text \<open>Python's \<open><\<close> on tuples of three integers: the first differing component decides.\<close>

fun tuple_less :: "int \<times> int \<times> int \<Rightarrow> int \<times> int \<times> int \<Rightarrow> bool" where
  "tuple_less (a1, b1, c1) (a2, b2, c2) \<longleftrightarrow>
     a1 < a2 \<or> (a1 = a2 \<and> (b1 < b2 \<or> (b1 = b2 \<and> c1 < c2)))"

definition compare_versions :: "pystr \<Rightarrow> pystr \<Rightarrow> py_error + int" where
  "compare_versions version1 version2 =
     (if \<not> validate_semantic_version version1 \<or> \<not> validate_semantic_version version2
      then Inl (ValueError BothVersionsInvalid)
      else
        (case parse_version version1 of Inl e \<Rightarrow> Inl e | Inr v1_parts \<Rightarrow>
        (case parse_version version2 of Inl e \<Rightarrow> Inl e | Inr v2_parts \<Rightarrow>
           Inr (if tuple_less v1_parts v2_parts then - 1
                else if tuple_less v2_parts v1_parts then 1
                else 0))))"

section \<open>The process and its surroundings\<close>

text \<open>
  What the functions reach outside the process is a parameter of the model: what
  \<open>subprocess.run\<close> gives for an argument vector (a completed process with its return
  code and captured standard output, or an exception with its text), what opening and
  reading a path gives, the texts that the runtime, not this module, composes (the
  \<open>str\<close> of a \<open>CalledProcessError\<close>, of the digit-limit error and of an encoding
  error, the \<open>repr\<close> of a string), and whether the encoding of standard output has
  the two marks that \<open>main\<close> prints. The texts that come from outside (arguments, file
  contents, the output of commands, the texts of exceptions) and the ASCII literals of
  the module are taken to be encodable.
\<close>

datatype proc_result = Completed int pystr | RunRaises pystr

datatype read_result = Content pystr | FileNotFound | ReadRaises pystr

record env =
  run :: "pystr list \<Rightarrow> proc_result"
  read_file :: "pystr \<Rightarrow> read_result"
  called_process_error_text :: "pystr list \<Rightarrow> int \<Rightarrow> pystr"
  repr_text :: "pystr \<Rightarrow> pystr"
  digit_limit_text :: "nat \<Rightarrow> pystr"
  encode_error_text :: pystr
  stdout_encodes_marks :: bool

text \<open>
  What the process does to the outside: the lines written to standard output and to
  standard error, and the commands it has run, each list in order of time.
\<close>

record world =
  stdout :: "pystr list"
  stderr :: "pystr list"
  executed :: "pystr list list"

text \<open>\<open>print(x)\<close> has no \<open>file\<close> argument anywhere in the module: it writes to standard output.\<close>

definition py_print :: "pystr \<Rightarrow> world \<Rightarrow> world" where
  "py_print line w = w\<lparr>stdout := stdout w @ [line]\<rparr>"

datatype exc = CalledProcessError pystr | OtherException pystr

fun exc_text :: "exc \<Rightarrow> pystr" where
  "exc_text (CalledProcessError t) = t"
| "exc_text (OtherException t) = t"

text \<open>
  \<open>subprocess.run(cmd, capture_output=True, text=True, check=...)\<close>: with
  \<open>check=True\<close> a non-zero return code raises \<open>CalledProcessError\<close>.
\<close>

definition subprocess_run ::
  "env \<Rightarrow> pystr list \<Rightarrow> bool \<Rightarrow> world \<Rightarrow> (exc + int \<times> pystr) \<times> world" where
  "subprocess_run e cmd check w =
     (let w' = w\<lparr>executed := executed w @ [cmd]\<rparr> in
      case run e cmd of
        RunRaises t \<Rightarrow> (Inl (OtherException t), w')
      | Completed rc out \<Rightarrow>
          if check \<and> rc \<noteq> 0
          then (Inl (CalledProcessError (called_process_error_text e cmd rc)), w')
          else (Inr (rc, out), w'))"

section \<open>read_version_from_file\<close>

definition read_version_from_file :: "env \<Rightarrow> pystr \<Rightarrow> world \<Rightarrow> pystr option \<times> world" where
  "read_version_from_file e file_path w =
     (case read_file e file_path of
        Content c \<Rightarrow>
          (let version = py_strip c in
           if validate_semantic_version version then (Some version, w)
           else (None,
                 py_print (u ''Error: Invalid semantic version format in '' @ file_path
                           @ u '': '' @ version) w))
      | FileNotFound \<Rightarrow>
          (None, py_print (u ''Error: '' @ file_path @ u '' file not found'') w)
      | ReadRaises t \<Rightarrow>
          (None, py_print (u ''Error reading '' @ file_path @ u '': '' @ t) w))"

section \<open>git_tag_exists\<close>

definition local_tag_cmd :: "pystr \<Rightarrow> pystr list" where
  "local_tag_cmd tag_name = [u ''git'', u ''tag'', u ''-l'', tag_name]"

definition remote_tag_cmd :: "pystr \<Rightarrow> pystr list" where
  "remote_tag_cmd tag_name = [u ''git'', u ''ls-remote'', u ''--tags'', u ''origin'', tag_name]"

definition git_tag_exists :: "env \<Rightarrow> pystr \<Rightarrow> world \<Rightarrow> bool \<times> world" where
  "git_tag_exists e version w =
     (let tag_name = u ''v'' @ version in
      case subprocess_run e (local_tag_cmd tag_name) False w of
        (Inl ex, w1) \<Rightarrow>
          (False, py_print (u ''Error checking git tag existence: '' @ exc_text ex) w1)
      | (Inr (rc, out), w1) \<Rightarrow>
          if rc = 0 \<and> py_strip out \<noteq> [] then (True, w1)
          else
            (case subprocess_run e (remote_tag_cmd tag_name) False w1 of
               (Inl ex, w2) \<Rightarrow>
                 (False, py_print (u ''Error checking git tag existence: '' @ exc_text ex) w2)
             | (Inr (rc2, out2), w2) \<Rightarrow> (rc2 = 0 \<and> py_strip out2 \<noteq> [], w2)))"

section \<open>get_git_commit_version_change\<close>

definition diff_cmd :: "pystr \<Rightarrow> pystr list" where
  "diff_cmd commit_hash =
     [u ''git'', u ''diff'', u ''--name-only'', commit_hash @ u ''^'', commit_hash]"

definition show_cmd :: "pystr \<Rightarrow> pystr list" where
  "show_cmd commit_hash = [u ''git'', u ''show'', commit_hash @ u '':VERSION'']"

text \<open>The two \<open>except\<close> clauses of the function, in their order.\<close>

fun commit_handler :: "exc \<Rightarrow> world \<Rightarrow> pystr option \<times> world" where
  "commit_handler (CalledProcessError t) w =
     (None, py_print (u ''Error checking git commit changes: '' @ t) w)"
| "commit_handler (OtherException t) w =
     (None, py_print (u ''Unexpected error: '' @ t) w)"

definition get_git_commit_version_change ::
  "env \<Rightarrow> pystr \<Rightarrow> world \<Rightarrow> pystr option \<times> world" where
  "get_git_commit_version_change e commit_hash w =
     (case subprocess_run e (diff_cmd commit_hash) True w of
        (Inl ex, w1) \<Rightarrow> commit_handler ex w1
      | (Inr (rc, out), w1) \<Rightarrow>
          (let changed_files = py_split 10 (py_strip out) in
           if u ''VERSION'' \<in> set changed_files then
             (case subprocess_run e (show_cmd commit_hash) True w1 of
                (Inl ex, w2) \<Rightarrow> commit_handler ex w2
              | (Inr (rc2, out2), w2) \<Rightarrow>
                  (let version = py_strip out2 in
                   if validate_semantic_version version then (Some version, w2)
                   else (None,
                         py_print (u ''Error: Invalid version format in commit ''
                                   @ commit_hash @ u '': '' @ version) w2)))
           else (None, w1)))"

section \<open>main\<close>

text \<open>\<open>str(e)\<close> of the \<open>ValueError\<close> that \<open>main\<close> catches.\<close>

fun value_error_text :: "env \<Rightarrow> value_error \<Rightarrow> pystr" where
  "value_error_text e BothVersionsInvalid = u ''Both versions must be valid semantic versions''"
| "value_error_text e (InvalidLiteral s) =
     u ''invalid literal for int() with base 10: '' @ repr_text e s"
| "value_error_text e (DigitLimit n) = digit_limit_text e n"
| "value_error_text e UnicodeEncodeError = encode_error_text e"

definition usage_lines :: "pystr list" where
  "usage_lines =
     [u ''Usage: python version_utils.py <command> [args...]'',
      u ''Commands:'',
      u ''  validate <version>     - Validate semantic version format'',
      u ''  check-tag <version>    - Check if git tag exists for version'',
      u ''  read-version [file]    - Read and validate version from file'',
      u ''  compare <v1> <v2>      - Compare two versions'',
      u ''  check-commit [hash]    - Check if VERSION changed in commit'']"

text \<open>The check mark U+2713 and the ballot cross U+2717 of the messages.\<close>

definition check_mark :: pystr where
  "check_mark = [10003]"

definition cross_mark :: pystr where
  "cross_mark = [10007]"

text \<open>
  \<open>print\<close> of a line that holds one of the marks: when the encoding of standard output
  lacks them, \<open>print\<close> raises \<open>UnicodeEncodeError\<close> and nothing is written.
\<close>

definition print_marked :: "env \<Rightarrow> pystr \<Rightarrow> world \<Rightarrow> py_error + world" where
  "print_marked e line w =
     (if stdout_encodes_marks e then Inr (py_print line w)
      else Inl (ValueError UnicodeEncodeError))"

text \<open>
  The outcome of a run that ends in \<open>sys.exit(n)\<close> is \<open>Inr n\<close>; an exception that
  leaves \<open>main\<close> is \<open>Inl\<close>, and the interpreter then ends the process with status 1.
  \<open>argv\<close> is \<open>sys.argv\<close>, the script's name first.
\<close>

fun exit_status :: "py_error + int \<Rightarrow> int" where
  "exit_status (Inr n) = n"
| "exit_status (Inl err) = 1"

definition finish :: "int \<Rightarrow> py_error + world \<Rightarrow> world \<Rightarrow> (py_error + int) \<times> world" where
  "finish n printed w =
     (case printed of Inr w' \<Rightarrow> (Inr n, w') | Inl err \<Rightarrow> (Inl err, w))"

definition main :: "env \<Rightarrow> pystr list \<Rightarrow> world \<Rightarrow> (py_error + int) \<times> world" where
  "main e argv w =
     (if length argv < 2 then (Inr 1, foldl (\<lambda>w' l. py_print l w') w usage_lines)
      else
        let command = argv ! 1 in
        if command = u ''validate'' then
          (if length argv \<noteq> 3
           then (Inr 1, py_print (u ''Usage: python version_utils.py validate <version>'') w)
           else
             let version = argv ! 2 in
             if validate_semantic_version version
             then finish 0
                    (print_marked e (check_mark @ u '' Version '' @ version @ u '' is valid'') w) w
             else finish 1
                    (print_marked e (cross_mark @ u '' Version '' @ version @ u '' is invalid'') w)
                    w)
        else if command = u ''check-tag'' then
          (if length argv \<noteq> 3
           then (Inr 1, py_print (u ''Usage: python version_utils.py check-tag <version>'') w)
           else
             let version = argv ! 2 in
             case git_tag_exists e version w of
               (True, w1) \<Rightarrow>
                 finish 1
                   (print_marked e (cross_mark @ u '' Tag v'' @ version @ u '' already exists'') w1)
                   w1
             | (False, w1) \<Rightarrow>
                 finish 0
                   (print_marked e (check_mark @ u '' Tag v'' @ version @ u '' does not exist'') w1)
                   w1)
        else if command = u ''read-version'' then
          (let file_path = (if length argv > 2 then argv ! 2 else u ''VERSION'') in
           case read_version_from_file e file_path w of
             (Some version, w1) \<Rightarrow>
               if version \<noteq> [] then (Inr 0, py_print version w1) else (Inr 1, w1)
           | (None, w1) \<Rightarrow> (Inr 1, w1))
        else if command = u ''compare'' then
          (if length argv \<noteq> 4
           then (Inr 1,
                 py_print (u ''Usage: python version_utils.py compare <version1> <version2>'') w)
           else
             let v1 = argv ! 2; v2 = argv ! 3 in
             case compare_versions v1 v2 of
               Inr result \<Rightarrow>
                 (Inr 0,
                  py_print
                    (if result = - 1 then v1 @ u '' < '' @ v2
                     else if result = 0 then v1 @ u '' = '' @ v2
                     else v1 @ u '' > '' @ v2) w)
             | Inl (ValueError ve) \<Rightarrow>
                 (Inr 1, py_print (u ''Error: '' @ value_error_text e ve) w)
             | Inl err \<Rightarrow> (Inl err, w))
        else if command = u ''check-commit'' then
          (let commit_hash = (if length argv > 2 then argv ! 2 else u ''HEAD'') in
           case get_git_commit_version_change e commit_hash w of
             (Some version, w1) \<Rightarrow>
               if version \<noteq> [] then (Inr 0, py_print version w1)
               else (Inr 1, py_print (u ''No version change detected'') w1)
           | (None, w1) \<Rightarrow> (Inr 1, py_print (u ''No version change detected'') w1))
        else (Inr 1, py_print (u ''Unknown command: '' @ command) w))"

section \<open>Notions used to state the properties\<close>

text \<open>
  What the group \<open>(0|[1-9]\d*)\<close> accepts, read off the pattern: the single character
  \<open>0\<close>, or one of \<open>1\<close>..\<open>9\<close> followed by any number of Unicode decimal digits.
\<close>

fun version_number :: "pystr \<Rightarrow> bool" where
  "version_number [] \<longleftrightarrow> False"
| "version_number (h # t) \<longleftrightarrow>
     (h = 48 \<and> t = []) \<or> (49 \<le> h \<and> h \<le> 57 \<and> list_all is_decimal t)"

text \<open>
  The specification's wording of a group, "the single digit 0 or a digit sequence not
  starting with 0", with digit read as one of \<open>0\<close>..\<open>9\<close>, and of a version, "three
  dot-separated groups", on the stripped input.
\<close>

definition strict_version_number :: "pystr \<Rightarrow> bool" where
  "strict_version_number g \<longleftrightarrow>
     g = [48] \<or> (g \<noteq> [] \<and> list_all ascii_digit g \<and> hd g \<noteq> 48)"

definition strict_version :: "pystr \<Rightarrow> bool" where
  "strict_version s \<longleftrightarrow>
     (case py_split 46 (py_strip s) of
        [a, b, c] \<Rightarrow> strict_version_number a \<and> strict_version_number b \<and> strict_version_number c
      | _ \<Rightarrow> False)"

text \<open>The number that a run of decimal digits denotes.\<close>

definition number_value :: "pystr \<Rightarrow> nat" where
  "number_value g = foldl (\<lambda>acc c. 10 * acc + the (decimal_value c)) 0 g"

text \<open>A string without the information separators FS, GS, RS, US (28..31).\<close>

definition separator_free :: "pystr \<Rightarrow> bool" where
  "separator_free s \<longleftrightarrow> list_all (\<lambda>c. c < 28 \<or> 31 < c) s"

text \<open>
  A number of at most \<open>int_max_str_digits\<close> digits in each dot-separated part of the
  stripped text.
\<close>

definition within_digit_limit :: "pystr \<Rightarrow> bool" where
  "within_digit_limit v \<longleftrightarrow>
     list_all (\<lambda>p. length p \<le> int_max_str_digits) (py_split 46 (py_strip v))"

section \<open>The version-control tool\<close>

text \<open>
  The tool as the specification describes it (sections 4.3, 4.5 and 6), so that what the
  functions are to find out has a meaning of its own. A repository has a list of local
  tags, the tags of the remote \<open>origin\<close> (each with the id of its object), for a commit
  the names of the files that differ between its parent and itself, and for a commit the
  content of \<open>VERSION\<close> recorded in it. Asking for any of these gives the answer, or
  fails with a status other than 0 and some output (as for a commit without parent, an
  unknown commit, a remote that cannot be reached), or raises in \<open>subprocess.run\<close>.
  The name given to a lookup of tags is a pattern for the tool; what a lookup does with
  a pattern that does not stand for itself is left open (\<open>unusual_lookup\<close>).
\<close>

datatype 'a answer = Answers 'a | Fails nat pystr | Raises pystr

record repository =
  local_tags :: "pystr list answer"
  origin_tags :: "(pystr \<times> pystr) list answer"
  changed_files :: "pystr \<Rightarrow> pystr list answer"
  version_file :: "pystr \<Rightarrow> pystr answer"
  unusual_lookup :: "pystr list \<Rightarrow> proc_result"

text \<open>What the tool prints: one line for each name, and for a remote tag its id and ref.\<close>

definition name_lines :: "pystr list \<Rightarrow> pystr" where
  "name_lines names = concat (map (\<lambda>n. n @ [10]) names)"

definition ref_lines :: "(pystr \<times> pystr) list \<Rightarrow> pystr" where
  "ref_lines refs = concat (map (\<lambda>(oid, n). oid @ [9] @ u ''refs/tags/'' @ n @ [10]) refs)"

fun completed :: "('a \<Rightarrow> pystr) \<Rightarrow> 'a answer \<Rightarrow> proc_result" where
  "completed render (Answers x) = Completed 0 (render x)"
| "completed render (Fails n out) = Completed (1 + int n) out"
| "completed render (Raises t) = RunRaises t"

text \<open>
  A pattern stands for itself when it has none of the wildcard characters \<open>*\<close>, \<open>?\<close>,
  \<open>[\<close> and backslash, and can be handed to a process when it has no NUL and no
  surrogate code point.
\<close>

definition literal_pattern :: "pystr \<Rightarrow> bool" where
  "literal_pattern p \<longleftrightarrow>
     list_all (\<lambda>c. c \<notin> {0, 42, 63, 91, 92} \<and> (c < 55296 \<or> 57343 < c)) p"

definition ends_with :: "pystr \<Rightarrow> pystr \<Rightarrow> bool" where
  "ends_with s t \<longleftrightarrow> length t \<le> length s \<and> drop (length s - length t) s = t"

text \<open>
  \<open>git ls-remote\<close> matches a pattern against the tail of a ref, from the start of the
  ref or from a slash in it: \<open>bar\<close> matches \<open>refs/heads/foo/bar\<close> and not
  \<open>refs/heads/foobar\<close>.
\<close>

definition ref_listed :: "pystr \<Rightarrow> pystr \<Rightarrow> bool" where
  "ref_listed p n \<longleftrightarrow> ends_with (u ''/refs/tags/'' @ n) (47 # p)"

text \<open>
  The four commands: \<open>git tag -l NAME\<close> lists the local tags of that name,
  \<open>git ls-remote --tags origin NAME\<close> the tags of \<open>origin\<close> whose ref ends in a slash
  and that name, \<open>git diff --name-only C^ C\<close> the files changed between the parent of
  \<open>C\<close> and \<open>C\<close>, \<open>git show C:VERSION\<close> the content of \<open>VERSION\<close> in \<open>C\<close>. Anything
  else is no command of the tool and ends with status 129.
\<close>

definition git :: "repository \<Rightarrow> pystr list \<Rightarrow> proc_result" where
  "git r cmd =
     (if length cmd = 4 \<and> take 3 cmd = [u ''git'', u ''tag'', u ''-l'']
      then (if literal_pattern (cmd ! 3)
            then completed (\<lambda>tags. name_lines (filter (\<lambda>t. t = cmd ! 3) tags)) (local_tags r)
            else unusual_lookup r cmd)
      else if length cmd = 5 \<and> take 4 cmd = [u ''git'', u ''ls-remote'', u ''--tags'', u ''origin'']
      then (if literal_pattern (cmd ! 4)
            then completed (\<lambda>refs. ref_lines (filter (\<lambda>(oid, n). ref_listed (cmd ! 4) n) refs))
                   (origin_tags r)
            else unusual_lookup r cmd)
      else if length cmd = 5 \<and> take 3 cmd = [u ''git'', u ''diff'', u ''--name-only'']
              \<and> cmd ! 3 = cmd ! 4 @ u ''^''
      then completed name_lines (changed_files r (cmd ! 4))
      else if length cmd = 3 \<and> take 2 cmd = [u ''git'', u ''show'']
              \<and> 8 \<le> length (cmd ! 2)
              \<and> drop (length (cmd ! 2) - 8) (cmd ! 2) = u '':VERSION''
      then completed (\<lambda>content. content)
             (version_file r (take (length (cmd ! 2) - 8) (cmd ! 2)))
      else Completed 129 [])"




text \<open>
  A file name that the listing of changed files shows as it is: not empty, without a
  newline, and neither beginning nor ending with white space.
\<close>

definition plain_name :: "pystr \<Rightarrow> bool" where
  "plain_name n \<longleftrightarrow> n \<noteq> [] \<and> 10 \<notin> set n \<and> \<not> is_space (hd n) \<and> \<not> is_space (last n)"

text \<open>
  A repository to run the functions on. The tags \<open>v0.9.0\<close> and \<open>v1.0.0\<close> exist locally,
  \<open>v1.0.0\<close> and \<open>v2.0.0\<close> on the remote. The commit \<open>HEAD\<close> changed \<open>README.md\<close> and
  \<open>VERSION\<close>, the latter to \<open>1.2.3\<close>; the commit \<open>DOCS\<close> changed \<open>README.md\<close> only; the
  commit \<open>DRAFT\<close> changed \<open>VERSION\<close> to \<open>1.0\<close>; the commit \<open>SPACED\<close> changed a file of
  the name \<open>" VERSION"\<close> and left \<open>VERSION\<close>, which holds \<open>1.2.3\<close>, as it was; asking
  for the changes of \<open>GONE\<close> raises; any other commit is unknown and the tool fails with
  status 128. The file \<open>VERSION\<close> holds \<open>" 1.0.0 \n"\<close>, the file \<open>SHORT\<close> holds
  \<open>"1.0"\<close>, the path \<open>LOCKED\<close> cannot be read, and no other file exists. Standard
  output encodes the marks.
\<close>

definition example_changes :: "pystr \<Rightarrow> pystr list answer" where
  "example_changes c =
     (if c = u ''HEAD'' then Answers [u ''README.md'', u ''VERSION'']
      else if c = u ''DOCS'' then Answers [u ''README.md'']
      else if c = u ''DRAFT'' then Answers [u ''VERSION'']
      else if c = u ''SPACED'' then Answers [u '' VERSION'']
      else if c = u ''GONE'' then Raises (u ''timed out'')
      else Fails 127 (u ''fatal: bad revision''))"

definition example_versions :: "pystr \<Rightarrow> pystr answer" where
  "example_versions c =
     (if c = u ''HEAD'' then Answers (u ''1.2.3'' @ [10])
      else if c = u ''DOCS'' then Answers (u ''1.0.0'' @ [10])
      else if c = u ''DRAFT'' then Answers (u ''1.0'' @ [10])
      else if c = u ''SPACED'' then Answers (u ''1.2.3'' @ [10])
      else Fails 127 (u ''fatal: invalid object name''))"

definition example_repo :: repository where
  "example_repo =
     \<lparr>local_tags = Answers [u ''v0.9.0'', u ''v1.0.0''],
      origin_tags = Answers [(u ''5f3a'', u ''v1.0.0''), (u ''77c0'', u ''v2.0.0'')],
      changed_files = example_changes,
      version_file = example_versions,
      unusual_lookup = (\<lambda>cmd. Completed 0 [])\<rparr>"

definition example_read :: "pystr \<Rightarrow> read_result" where
  "example_read path =
     (if path = u ''VERSION'' then Content (u '' 1.0.0 '' @ [10])
      else if path = u ''SHORT'' then Content (u ''1.0'')
      else if path = u ''LOCKED'' then ReadRaises (u ''Permission denied'')
      else FileNotFound)"

definition example_env :: env where
  "example_env =
     \<lparr>run = git example_repo,
      read_file = example_read,
      called_process_error_text = (\<lambda>cmd rc. u ''Command returned non-zero exit status''),
      repr_text = (\<lambda>s. [39] @ s @ [39]),
      digit_limit_text = (\<lambda>n. u ''Exceeds the limit (4300 digits) for integer string conversion''),
      encode_error_text = u ''codec cannot encode character'',
      stdout_encodes_marks = True\<rparr>"


definition quiet_world :: world where
  "quiet_world = \<lparr>stdout = [], stderr = [], executed = []\<rparr>"

section \<open>The matcher\<close>

lemma matches_Never [simp]: "\<not> matches Never w"
  by (induction w) simp_all

lemma matches_Empty [simp]: "matches Empty w \<longleftrightarrow> w = []"
  by (cases w) simp_all

lemma matches_Sym: "matches (Sym k) w \<longleftrightarrow> (\<exists>c. w = [c] \<and> in_class k c)"
  by (cases w) auto

lemma matches_Alt: "matches (Alt r s) w \<longleftrightarrow> matches r w \<or> matches s w"
  by (induction w arbitrary: r s) simp_all

lemma matches_Seq:
  "matches (Seq r s) w \<longleftrightarrow> (\<exists>a b. w = a @ b \<and> matches r a \<and> matches s b)"
proof (induction w arbitrary: r s)
  case Nil
  then show ?case by simp
next
  case (Cons c cs)
  have split: "(\<exists>a b. c # cs = a @ b \<and> matches r a \<and> matches s b) \<longleftrightarrow>
      (nullable r \<and> matches s (c # cs)) \<or>
      (\<exists>a' b. cs = a' @ b \<and> matches (deriv c r) a' \<and> matches s b)"
    (is "?L \<longleftrightarrow> ?N \<or> ?C")
  proof
    assume ?L
    then obtain a b where ab: "c # cs = a @ b" "matches r a" "matches s b" by blast
    show "?N \<or> ?C"
    proof (cases a)
      case Nil
      with ab show ?thesis by simp
    next
      case (Cons x a')
      with ab have "cs = a' @ b" "matches (deriv c r) a'" by simp_all
      with ab(3) show ?thesis by blast
    qed
  next
    assume "?N \<or> ?C"
    then show ?L
    proof
      assume ?N
      then have "c # cs = [] @ (c # cs) \<and> matches r [] \<and> matches s (c # cs)" by simp
      then show ?L by blast
    next
      assume ?C
      then obtain a' b where "cs = a' @ b" "matches (deriv c r) a'" "matches s b" by blast
      then have "c # cs = (c # a') @ b \<and> matches r (c # a') \<and> matches s b" by simp
      then show ?L by blast
    qed
  qed
  show ?case
    by (simp add: split matches_Alt Cons.IH) blast
qed

lemma matches_Star_Sym: "matches (Star (Sym k)) w \<longleftrightarrow> list_all (in_class k) w"
proof (induction w)
  case Nil
  then show ?case by simp
next
  case (Cons c cs)
  then show ?case by (simp add: matches_Seq)
qed

lemma matches_number_group: "matches number_group g \<longleftrightarrow> version_number g"
proof (cases g)
  case Nil
  then show ?thesis by (simp add: number_group_def)
next
  case (Cons h t)
  have "in_class Digit = is_decimal" by (rule ext) simp
  then show ?thesis
    unfolding number_group_def Cons
    by (auto simp: matches_Alt matches_Seq matches_Sym matches_Star_Sym Cons_eq_append_conv)
qed

lemma matches_pattern:
  "matches pattern s \<longleftrightarrow>
     (\<exists>a b c. s = a @ 46 # b @ 46 # c \<and> version_number a \<and> version_number b \<and> version_number c)"
  unfolding pattern_def
  by (simp add: matches_Seq matches_Sym matches_number_group) blast

section \<open>Stripping\<close>

lemma strip_no_trailing_space: "py_strip s \<noteq> [] \<Longrightarrow> \<not> is_space (last (py_strip s))"
  unfolding py_strip_def
  by (simp add: last_rev hd_dropWhile)

lemma strip_no_leading_space: "py_strip s \<noteq> [] \<Longrightarrow> \<not> is_space (hd (py_strip s))"
proof -
  assume ne: "py_strip s \<noteq> []"
  let ?d = "dropWhile is_space s"
  have "?d = [] \<Longrightarrow> py_strip s = []"
    by (auto simp: py_strip_def dest: set_dropWhileD)
  with ne have dne: "?d \<noteq> []" by blast
  then have h: "\<not> is_space (hd ?d)" by (rule hd_dropWhile)
  obtain x xs where d: "?d = x # xs" using dne by (cases ?d) auto
  with h have nx: "\<not> is_space x" by simp
  have "dropWhile is_space (rev ?d) = dropWhile is_space (rev xs) @ [x]"
    using nx by (simp add: d dropWhile_append)
  then have "py_strip s = x # rev (dropWhile is_space (rev xs))"
    by (simp add: py_strip_def)
  with nx show ?thesis by simp
qed

lemma strip_fixed:
  assumes "s \<noteq> []" "\<not> is_space (hd s)" "\<not> is_space (last s)"
  shows "py_strip s = s"
proof -
  from assms have a: "dropWhile is_space s = s" by (cases s) auto
  from assms have "rev s \<noteq> []" "\<not> is_space (hd (rev s))" by (simp_all add: hd_rev)
  then have "dropWhile is_space (rev s) = rev s" by (cases "rev s") auto
  with a show ?thesis by (simp add: py_strip_def)
qed

lemma strip_idem: "py_strip (py_strip s) = py_strip s"
proof (cases "py_strip s = []")
  case True
  have "py_strip [] = []" by (simp add: py_strip_def)
  with True show ?thesis by simp
next
  case False
  then show ?thesis
    by (intro strip_fixed strip_no_leading_space strip_no_trailing_space)
qed

lemma strip_decompose:
  "\<exists>l r. s = l @ py_strip s @ r \<and> list_all is_space l \<and> list_all is_space r"
proof -
  let ?l = "takeWhile is_space s"
  let ?d = "dropWhile is_space s"
  let ?r = "rev (takeWhile is_space (rev ?d))"
  have "rev (rev ?d) = rev (takeWhile is_space (rev ?d) @ dropWhile is_space (rev ?d))"
    by (simp only: takeWhile_dropWhile_id)
  also have "\<dots> = py_strip s @ ?r" by (simp only: rev_append py_strip_def)
  finally have "?d = py_strip s @ ?r" by simp
  moreover have "s = ?l @ ?d" by simp
  ultimately have "s = ?l @ py_strip s @ ?r" by simp
  moreover have "list_all is_space ?l" "list_all is_space ?r"
    by (auto simp: list_all_iff dest: set_takeWhileD)
  ultimately show ?thesis by blast
qed

lemma validate_iff_matches:
  "validate_semantic_version v \<longleftrightarrow> matches pattern (py_strip v)"
proof -
  have "is_space 10" by (simp add: is_space_def)
  then have "\<not> (py_strip v \<noteq> [] \<and> last (py_strip v) = 10)"
    using strip_no_trailing_space [of v] by auto
  then show ?thesis
    by (auto simp: validate_semantic_version_def re_match_anchored_def)
qed

lemma validate_iff:
  "validate_semantic_version v \<longleftrightarrow>
     (\<exists>a b c. py_strip v = a @ 46 # b @ 46 # c \<and>
        version_number a \<and> version_number b \<and> version_number c)"
  by (simp add: validate_iff_matches matches_pattern)

section \<open>Decimal digits\<close>

lemma decimal_value_below_10: "decimal_value c = Some d \<Longrightarrow> d < 10"
proof -
  assume a: "decimal_value c = Some d"
  let ?f = "filter (\<lambda>z. z \<le> c \<and> c < z + 10) nd_zeros"
  from a obtain z zs where f: "?f = z # zs" and d: "d = c - z"
    by (auto simp: decimal_value_def split: list.splits)
  have "z \<in> set ?f" by (simp add: f)
  then have "z \<le> c" "c < z + 10" by simp_all
  with d show ?thesis by linarith
qed

lemma decimal_gap:
  assumes "\<forall>z\<in>set nd_zeros. z + 10 \<le> lo \<or> hi \<le> z" "lo \<le> c" "c < hi"
  shows "decimal_value c = None"
proof -
  have "filter (\<lambda>z. z \<le> c \<and> c < z + 10) nd_zeros = []"
    unfolding filter_empty_conv using assms by fastforce
  then show ?thesis by (simp add: decimal_value_def)
qed

lemma gap_ascii_low: "\<forall>z\<in>set nd_zeros. z + 10 \<le> 0 \<or> 48 \<le> z"
  by (simp add: nd_zeros_def)

lemma gap_latin: "\<forall>z\<in>set nd_zeros. z + 10 \<le> 58 \<or> 1632 \<le> z"
  by (simp add: nd_zeros_def)

lemma gap_ogham: "\<forall>z\<in>set nd_zeros. z + 10 \<le> 4250 \<or> 6112 \<le> z"
  by (simp add: nd_zeros_def)

lemma gap_punctuation: "\<forall>z\<in>set nd_zeros. z + 10 \<le> 7258 \<or> 42528 \<le> z"
  by (simp add: nd_zeros_def)

lemma nd_zeros_head: "\<exists>zs. nd_zeros = 48 # zs"
  by (simp add: nd_zeros_def)

lemma decimal_value_ascii:
  assumes "c < 127"
  shows "decimal_value c = (if 48 \<le> c \<and> c \<le> 57 then Some (c - 48) else None)"
proof -
  consider "c < 48" | "48 \<le> c \<and> c \<le> 57" | "58 \<le> c" by linarith
  then show ?thesis
  proof cases
    case 1
    then show ?thesis using decimal_gap [OF gap_ascii_low, of c] by simp
  next
    case 2
    obtain zs where zs: "nd_zeros = 48 # zs" using nd_zeros_head by blast
    have "filter (\<lambda>z. z \<le> c \<and> c < z + 10) (48 # zs)
            = 48 # filter (\<lambda>z. z \<le> c \<and> c < z + 10) zs"
      using 2 by simp
    with 2 show ?thesis unfolding decimal_value_def zs by simp
  next
    case 3
    with assms show ?thesis using decimal_gap [OF gap_latin, of c] by simp
  qed
qed

lemma space_not_decimal:
  assumes "is_space c"
  shows "decimal_value c = None"
proof -
  consider "c < 48" | "58 \<le> c \<and> c < 1632" | "4250 \<le> c \<and> c < 6112" | "7258 \<le> c \<and> c < 42528"
    using assms unfolding is_space_def by linarith
  then show ?thesis
  proof cases
    case 1
    then show ?thesis using decimal_gap [OF gap_ascii_low, of c] by simp
  next
    case 2
    then show ?thesis using decimal_gap [OF gap_latin, of c] by simp
  next
    case 3
    then show ?thesis using decimal_gap [OF gap_ogham, of c] by simp
  next
    case 4
    then show ?thesis using decimal_gap [OF gap_punctuation, of c] by simp
  qed
qed

lemma not_decimal_dot: "\<not> is_decimal 46"
  by (simp add: is_decimal_def decimal_value_ascii)

lemma not_space_dot: "\<not> is_space 46"
  by (simp add: is_space_def)

section \<open>Splitting and converting\<close>

lemma split_no_sep: "sep \<notin> set a \<Longrightarrow> py_split sep a = [a]"
  by (induction a) auto

lemma split_at_sep: "sep \<notin> set a \<Longrightarrow> py_split sep (a @ sep # r) = a # py_split sep r"
  by (induction a) auto

lemma version_number_decimal: "version_number g \<Longrightarrow> g \<noteq> [] \<and> list_all is_decimal g"
  by (cases g) (auto simp: is_decimal_def decimal_value_ascii)

lemma version_number_no_dot: "version_number g \<Longrightarrow> 46 \<notin> set g"
  using version_number_decimal [of g] not_decimal_dot by (auto simp: list_all_iff)

lemma version_number_ascii_head: "version_number g \<Longrightarrow> ascii_digit (hd g)"
  by (cases g) (auto simp: ascii_digit_def)

lemma to_ascii_decimal:
  assumes "is_decimal c"
  shows "ascii_digit (to_ascii c) \<and> to_ascii c - 48 = the (decimal_value c)"
proof (cases "c < 127")
  case True
  with assms show ?thesis
    by (auto simp: to_ascii_def is_decimal_def ascii_digit_def decimal_value_ascii
             split: if_splits)
next
  case False
  from assms obtain d where d: "decimal_value c = Some d" by (auto simp: is_decimal_def)
  then have "d < 10" by (rule decimal_value_below_10)
  moreover from d have "\<not> is_space c" using space_not_decimal [of c] by auto
  ultimately show ?thesis using False d by (simp add: to_ascii_def ascii_digit_def)
qed

lemma to_ascii_space:
  assumes "is_space c" "c < 28 \<or> 31 < c"
  shows "c_isspace (to_ascii c)"
proof (cases "c < 127")
  case True
  with assms show ?thesis by (auto simp: to_ascii_def is_space_def c_isspace_def)
next
  case False
  with assms show ?thesis by (simp add: to_ascii_def c_isspace_def)
qed

lemma digits_value_decimals:
  "list_all is_decimal g \<Longrightarrow>
   digits_value acc prev (map to_ascii g) =
     (if g = [] then (if prev then Some acc else None)
      else Some (foldl (\<lambda>a c. 10 * a + the (decimal_value c)) acc g))"
proof (induction g arbitrary: acc prev)
  case Nil
  then show ?case by simp
next
  case (Cons c g)
  then have "is_decimal c" "list_all is_decimal g" by simp_all
  with Cons.IH [of "10 * acc + the (decimal_value c)" True] to_ascii_decimal [of c]
  show ?case by (cases g) simp_all
qed

lemma separator_not_c_isspace: "28 \<le> x \<Longrightarrow> x \<le> 31 \<Longrightarrow> to_ascii x = x \<and> \<not> c_isspace x"
  by (simp add: to_ascii_def c_isspace_def)

lemma spaces_to_ascii:
  assumes "list_all is_space r"
  shows "\<forall>c\<in>set (map to_ascii r). \<not> (ascii_digit c \<or> c = 95)"
proof
  fix c assume "c \<in> set (map to_ascii r)"
  then obtain x where x: "x \<in> set r" "c = to_ascii x" by auto
  with assms have sp: "is_space x" by (simp add: list_all_iff)
  show "\<not> (ascii_digit c \<or> c = 95)"
  proof (cases "x < 127")
    case True
    with sp x show ?thesis by (auto simp: to_ascii_def is_space_def ascii_digit_def)
  next
    case False
    with sp x show ?thesis by (simp add: to_ascii_def ascii_digit_def)
  qed
qed

lemma filter_all: "\<forall>x\<in>set xs. P x \<Longrightarrow> filter P xs = xs"
  by (induction xs) auto

lemma int_of_digits_then_rest:
  assumes t: "dropWhile c_isspace (map to_ascii s) = G @ R"
      and G: "G \<noteq> []" "\<forall>c\<in>set G. ascii_digit c"
      and R: "\<forall>c\<in>set R. \<not> (ascii_digit c \<or> c = 95)"
      and val: "digits_value 0 False G = Some n"
  shows "py_int s =
     (if int_max_str_digits < length G then Inl (ValueError (DigitLimit (length G)))
      else if dropWhile c_isspace R \<noteq> [] then Inl (ValueError (InvalidLiteral s))
      else Inr (int n))"
proof -
  let ?dig = "\<lambda>c. ascii_digit c \<or> c = 95"
  have x: "ascii_digit (hd G)" using G by (cases G) auto
  then have nsign: "hd G \<noteq> 43" "hd G \<noteq> 45" by (auto simp: ascii_digit_def)
  have Gd: "\<forall>c\<in>set G. ?dig c" using G(2) by simp
  have tR: "takeWhile ?dig R = []" using R by (cases R) auto
  have dR: "dropWhile ?dig R = R" using R by (cases R) auto
  have body: "takeWhile ?dig (G @ R) = G" using Gd tR by (simp add: takeWhile_append)
  have rest: "dropWhile ?dig (G @ R) = R" using Gd dR by (simp add: dropWhile_append)
  have count: "filter ascii_digit G = G" using G(2) by (rule filter_all)
  have hd: "hd (G @ R) = hd G" "G @ R \<noteq> []" using G(1) by simp_all
  show ?thesis
    unfolding py_int_def t Let_def
    using hd nsign by (simp add: body rest count val del: dropWhile_eq_Nil_conv)
qed

lemma int_of_padded_text:
  assumes l: "list_all is_space l" "separator_free l"
      and r: "list_all is_space r"
      and g: "version_number g"
  shows "py_int (l @ g @ r) =
     (if int_max_str_digits < length g then Inl (ValueError (DigitLimit (length g)))
      else if separator_free r then Inr (int (number_value g))
      else Inl (ValueError (InvalidLiteral (l @ g @ r))))"
proof -
  let ?L = "map to_ascii l" and ?G = "map to_ascii g" and ?R = "map to_ascii r"
  from g have gd: "g \<noteq> []" "list_all is_decimal g" using version_number_decimal by blast+
  have L: "list_all c_isspace ?L" using l
    by (auto simp: list_all_iff separator_free_def intro: to_ascii_space)
  have G: "\<forall>c\<in>set ?G. ascii_digit c" using gd(2)
    by (auto simp: list_all_iff dest: to_ascii_decimal)
  have Gne: "?G \<noteq> []" using gd(1) by simp
  then have "ascii_digit (hd ?G)" using G by (cases ?G) auto
  then have nsp: "\<not> c_isspace (hd ?G)" by (auto simp: ascii_digit_def c_isspace_def)
  have t: "dropWhile c_isspace (map to_ascii (l @ g @ r)) = ?G @ ?R"
  proof -
    have "dropWhile c_isspace (?L @ ?G @ ?R) = dropWhile c_isspace (?G @ ?R)"
      using L by (simp add: dropWhile_append list_all_iff)
    also have "\<dots> = ?G @ ?R" using nsp Gne by (cases ?G) auto
    finally show ?thesis by simp
  qed
  have Rn: "\<forall>c\<in>set ?R. \<not> (ascii_digit c \<or> c = 95)" using r by (rule spaces_to_ascii)
  have val: "digits_value 0 False ?G = Some (number_value g)"
    using digits_value_decimals [OF gd(2), of 0 False] gd(1) by (simp add: number_value_def)
  note core = int_of_digits_then_rest [OF t Gne G Rn val]
  have len: "length ?G = length g" by simp
  show ?thesis
  proof (cases "separator_free r")
    case True
    with r have "list_all c_isspace ?R"
      by (auto simp: list_all_iff separator_free_def intro: to_ascii_space)
    then have d: "dropWhile c_isspace ?R = []" by (simp add: list_all_iff)
    show ?thesis unfolding core d len using True by simp
  next
    case False
    then obtain y where y: "y \<in> set r" "28 \<le> y" "y \<le> 31"
      by (auto simp: separator_free_def list_all_iff)
    have "to_ascii y \<in> set ?R" using y(1) by simp
    moreover have "\<not> c_isspace (to_ascii y)"
      using separator_not_c_isspace [OF y(2) y(3)] by simp
    ultimately have "dropWhile c_isspace ?R \<noteq> []"
      by (auto simp: dropWhile_eq_Nil_conv)
    then obtain z zs where d: "dropWhile c_isspace ?R = z # zs"
      by (cases "dropWhile c_isspace ?R") auto
    show ?thesis unfolding core d len using False by simp
  qed
qed

lemma int_of_padded_number:
  assumes "list_all is_space l" "separator_free l"
      and "list_all is_space r" "separator_free r"
      and "version_number g" "length g \<le> int_max_str_digits"
  shows "py_int (l @ g @ r) = Inr (int (number_value g))"
  using int_of_padded_text [OF assms(1) assms(2) assms(3) assms(5)] assms(4) assms(6) by simp

lemma int_rejects_leading_separator:
  assumes l: "list_all is_space l" "\<not> separator_free l"
  shows "py_int (l @ g) = Inl (ValueError (InvalidLiteral (l @ g)))"
proof -
  let ?sep = "\<lambda>c. c < 28 \<or> 31 < c"
  let ?dig = "\<lambda>c. ascii_digit c \<or> c = 95"
  let ?l1 = "takeWhile ?sep l" and ?l2 = "dropWhile ?sep l"
  from l(2) have "?l2 \<noteq> []" by (auto simp: separator_free_def list_all_iff)
  then obtain y ys where y: "?l2 = y # ys" by (cases ?l2) auto
  have "\<not> ?sep (hd ?l2)" using \<open>?l2 \<noteq> []\<close> by (rule hd_dropWhile)
  with y have yr: "28 \<le> y" "y \<le> 31" by auto
  have split: "l = ?l1 @ y # ys" using y by (metis takeWhile_dropWhile_id)
  have l1: "list_all c_isspace (map to_ascii ?l1)"
  proof -
    have "\<forall>c\<in>set ?l1. is_space c \<and> ?sep c"
      using l(1) by (auto simp: list_all_iff dest: set_takeWhileD)
    then show ?thesis by (auto simp: list_all_iff intro: to_ascii_space)
  qed
  have ty: "to_ascii y = y" "\<not> c_isspace y" using separator_not_c_isspace [OF yr] by simp_all
  have "map to_ascii (l @ g) = map to_ascii ?l1 @ y # map to_ascii (ys @ g)"
    using ty(1) by (subst split) simp
  then have t: "dropWhile c_isspace (map to_ascii (l @ g)) = y # map to_ascii (ys @ g)"
    using l1 ty(2) by (simp add: dropWhile_append list_all_iff)
  have ny: "y \<noteq> 43" "y \<noteq> 45" "\<not> ?dig y" using yr by (auto simp: ascii_digit_def)
  show ?thesis
    unfolding py_int_def t Let_def
    using ny by simp
qed

lemma int_of_padded_returns:
  assumes l: "list_all is_space l" and r: "list_all is_space r" and g: "version_number g"
  shows "(\<exists>n. py_int (l @ g @ r) = Inr n) \<longleftrightarrow>
           separator_free l \<and> length g \<le> int_max_str_digits \<and> separator_free r"
proof (cases "separator_free l")
  case True
  show ?thesis
    using True by (simp add: int_of_padded_text [OF l True r g])
next
  case False
  have "py_int (l @ (g @ r)) = Inl (ValueError (InvalidLiteral (l @ (g @ r))))"
    using l False by (rule int_rejects_leading_separator)
  with False show ?thesis by simp
qed

section \<open>Parsing and comparing\<close>

lemma split_version:
  assumes "46 \<notin> set x" "46 \<notin> set y" "46 \<notin> set z"
  shows "py_split 46 (x @ 46 # y @ 46 # z) = [x, y, z]"
  using assms by (simp add: split_at_sep split_no_sep)

lemma version_number_separator_free: "version_number g \<Longrightarrow> separator_free g"
proof -
  assume "version_number g"
  then have "list_all is_decimal g" using version_number_decimal by blast
  moreover have "\<not> is_decimal c" if "28 \<le> c" "c \<le> 31" for c
    using that by (simp add: is_decimal_def decimal_value_ascii)
  ultimately show ?thesis
    unfolding separator_free_def list_all_iff by (metis not_less)
qed

lemma valid_parts:
  assumes "validate_semantic_version v"
  obtains l a b c r where
    "v = l @ (a @ 46 # b @ 46 # c) @ r" "py_strip v = a @ 46 # b @ 46 # c"
    "list_all is_space l" "list_all is_space r"
    "version_number a" "version_number b" "version_number c"
    "py_split 46 v = [l @ a, b, c @ r]" "py_split 46 (py_strip v) = [a, b, c]"
proof -
  from assms obtain a b c where core: "py_strip v = a @ 46 # b @ 46 # c"
    and n: "version_number a" "version_number b" "version_number c"
    unfolding validate_iff by blast
  obtain l r where d: "v = l @ py_strip v @ r" and sp: "list_all is_space l" "list_all is_space r"
    using strip_decompose [of v] by blast
  have nd: "46 \<notin> set a" "46 \<notin> set b" "46 \<notin> set c"
    using n by (auto dest: version_number_no_dot)
  have nodot: "46 \<notin> set (l @ a)" "46 \<notin> set b" "46 \<notin> set (c @ r)"
    using sp nd not_space_dot by (auto simp: list_all_iff)
  have "v = (l @ a) @ 46 # b @ 46 # (c @ r)" using d core by simp
  then have parts: "py_split 46 v = [l @ a, b, c @ r]"
    using split_version [OF nodot] by simp
  have parts': "py_split 46 (py_strip v) = [a, b, c]"
    using split_version [OF nd] core by simp
  have vv: "v = l @ (a @ 46 # b @ 46 # c) @ r" using d core by simp
  show thesis using that [OF vv core sp(1) sp(2) n(1) n(2) n(3) parts parts'] .
qed

lemma parse_version_of_parts:
  assumes "py_split 46 v = [p0, p1, p2]"
  shows "parse_version v =
      (case py_int p0 of Inl e \<Rightarrow> Inl e | Inr major \<Rightarrow>
      (case py_int p1 of Inl e \<Rightarrow> Inl e | Inr minor \<Rightarrow>
      (case py_int p2 of Inl e \<Rightarrow> Inl e | Inr patch \<Rightarrow> Inr (major, minor, patch))))"
  by (simp add: parse_version_def assms item_def Let_def cong: sum.case_cong)

lemma parse_version_clean:
  assumes v: "validate_semantic_version v" and sf: "separator_free v"
      and lim: "within_digit_limit v"
  shows "\<exists>a b c. py_strip v = a @ 46 # b @ 46 # c \<and>
           version_number a \<and> version_number b \<and> version_number c \<and>
           parse_version v = Inr (int (number_value a), int (number_value b), int (number_value c))"
proof -
  from v obtain l a b c r where
    d: "v = l @ (a @ 46 # b @ 46 # c) @ r" and core: "py_strip v = a @ 46 # b @ 46 # c"
    and sp: "list_all is_space l" "list_all is_space r"
    and n: "version_number a" "version_number b" "version_number c"
    and parts: "py_split 46 v = [l @ a, b, c @ r]"
    and parts': "py_split 46 (py_strip v) = [a, b, c]"
    by (rule valid_parts)
  have "separator_free (l @ (a @ 46 # b @ 46 # c) @ r)" using sf d by simp
  then have sfl: "separator_free l" and sfr: "separator_free r"
    by (simp_all add: separator_free_def)
  from lim have len: "length a \<le> int_max_str_digits" "length b \<le> int_max_str_digits"
      "length c \<le> int_max_str_digits"
    by (simp_all add: within_digit_limit_def parts')
  have e: "list_all is_space []" "separator_free []" by (simp_all add: separator_free_def)
  have i0: "py_int (l @ a) = Inr (int (number_value a))"
    using int_of_padded_number [OF sp(1) sfl e n(1) len(1)] by simp
  have i1: "py_int b = Inr (int (number_value b))"
    using int_of_padded_number [OF e e n(2) len(2)] by simp
  have i2: "py_int (c @ r) = Inr (int (number_value c))"
    using int_of_padded_number [OF e sp(2) sfr n(3) len(3)] by simp
  have "parse_version v = Inr (int (number_value a), int (number_value b), int (number_value c))"
    by (simp add: parse_version_of_parts [OF parts] i0 i1 i2)
  with core n show ?thesis by blast
qed

lemma parse_version_returns_iff:
  assumes v: "validate_semantic_version v"
  shows "(\<exists>t. parse_version v = Inr t) \<longleftrightarrow> separator_free v \<and> within_digit_limit v"
proof -
  from v obtain l a b c r where
    d: "v = l @ (a @ 46 # b @ 46 # c) @ r" and core: "py_strip v = a @ 46 # b @ 46 # c"
    and sp: "list_all is_space l" "list_all is_space r"
    and n: "version_number a" "version_number b" "version_number c"
    and parts: "py_split 46 v = [l @ a, b, c @ r]"
    and parts': "py_split 46 (py_strip v) = [a, b, c]"
    by (rule valid_parts)
  have e: "list_all is_space []" "separator_free []" by (simp_all add: separator_free_def)
  have r0: "(\<exists>k. py_int (l @ a) = Inr k) \<longleftrightarrow> separator_free l \<and> length a \<le> int_max_str_digits"
    using int_of_padded_returns [OF sp(1) e(1) n(1)] e(2) by simp
  have r1: "(\<exists>k. py_int b = Inr k) \<longleftrightarrow> length b \<le> int_max_str_digits"
    using int_of_padded_returns [OF e(1) e(1) n(2)] e(2) by simp
  have r2: "(\<exists>k. py_int (c @ r) = Inr k) \<longleftrightarrow> length c \<le> int_max_str_digits \<and> separator_free r"
    using int_of_padded_returns [OF e(1) sp(2) n(3)] e(2) by simp
  have "(\<exists>t. parse_version v = Inr t) \<longleftrightarrow>
      (\<exists>k. py_int (l @ a) = Inr k) \<and> (\<exists>k. py_int b = Inr k) \<and> (\<exists>k. py_int (c @ r) = Inr k)"
    unfolding parse_version_of_parts [OF parts]
    by (cases "py_int (l @ a)"; cases "py_int b"; cases "py_int (c @ r)") simp_all
  moreover have "separator_free (a @ 46 # b @ 46 # c)"
    using n by (simp add: separator_free_def
                  version_number_separator_free [unfolded separator_free_def])
  then have "separator_free v \<longleftrightarrow> separator_free l \<and> separator_free r"
    by (subst d) (simp add: separator_free_def)
  moreover have "within_digit_limit v \<longleftrightarrow>
      length a \<le> int_max_str_digits \<and> length b \<le> int_max_str_digits \<and>
      length c \<le> int_max_str_digits"
    by (simp add: within_digit_limit_def parts')
  ultimately show ?thesis using r0 r1 r2 by blast
qed

lemma guarded_result_error:
  "(case D of
      None \<Rightarrow> Inl (ValueError X)
    | Some n \<Rightarrow>
        if A then Inl (ValueError Y) else if C then Inl (ValueError X) else Inr (f n)) = Inl err
   \<Longrightarrow> \<exists>ve. err = ValueError ve"
  by (cases D; cases A; cases C) auto

lemma py_int_error: "py_int s = Inl err \<Longrightarrow> \<exists>ve. err = ValueError ve"
  unfolding py_int_def Let_def by (erule guarded_result_error)

lemma parse_version_error:
  assumes "validate_semantic_version v" "parse_version v = Inl err"
  shows "\<exists>ve. err = ValueError ve"
proof -
  from assms(1) obtain l a b c r where parts: "py_split 46 v = [l @ a, b, c @ r]"
    by (rule valid_parts)
  have i: "py_int s = Inl x \<Longrightarrow> \<exists>ve. x = ValueError ve" for s x
    by (rule py_int_error)
  from assms(2) show ?thesis
    unfolding parse_version_of_parts [OF parts]
    by (cases "py_int (l @ a)"; cases "py_int b"; cases "py_int (c @ r)") (auto dest: i)
qed

lemma tuple_less_trichotomy: "\<not> tuple_less s t \<and> \<not> tuple_less t s \<longleftrightarrow> s = t"
  by (cases s; cases t) auto

lemma tuple_less_asym: "tuple_less s t \<Longrightarrow> \<not> tuple_less t s"
  by (cases s; cases t) auto

lemma compare_versions_of_parsed:
  assumes "validate_semantic_version v1" "validate_semantic_version v2"
      and "parse_version v1 = Inr t1" "parse_version v2 = Inr t2"
  shows "compare_versions v1 v2 = Inr (if tuple_less t1 t2 then - 1 else if t1 = t2 then 0 else 1)"
  using assms tuple_less_trichotomy [of t1 t2] tuple_less_asym [of t1 t2]
  by (auto simp: compare_versions_def)

lemma compare_versions_returned:
  assumes "compare_versions v1 v2 = Inr r"
  obtains t1 t2 where "validate_semantic_version v1" "validate_semantic_version v2"
    "parse_version v1 = Inr t1" "parse_version v2 = Inr t2"
proof -
  from assms have v: "validate_semantic_version v1" "validate_semantic_version v2"
    by (auto simp: compare_versions_def split: if_splits)
  from assms v obtain s where s: "parse_version v1 = Inr s"
    by (cases "parse_version v1") (auto simp: compare_versions_def)
  from assms v s obtain t where t: "parse_version v2 = Inr t"
    by (cases "parse_version v2") (auto simp: compare_versions_def)
  from v s t show thesis by (rule that)
qed

lemma compare_versions_clean:
  assumes "validate_semantic_version v1" "validate_semantic_version v2"
      and "separator_free v1" "separator_free v2"
      and "within_digit_limit v1" "within_digit_limit v2"
  shows "\<exists>t1 t2. parse_version v1 = Inr t1 \<and> parse_version v2 = Inr t2 \<and>
           compare_versions v1 v2 =
             Inr (if tuple_less t1 t2 then - 1 else if t1 = t2 then 0 else 1)"
proof -
  obtain t1 where t1: "parse_version v1 = Inr t1"
    using parse_version_clean [OF assms(1) assms(3) assms(5)] by blast
  obtain t2 where t2: "parse_version v2 = Inr t2"
    using parse_version_clean [OF assms(2) assms(4) assms(6)] by blast
  from compare_versions_of_parsed [OF assms(1) assms(2) t1 t2] t1 t2 show ?thesis by blast
qed

lemma compare_versions_returns_iff:
  "(\<exists>r. compare_versions v1 v2 = Inr r) \<longleftrightarrow>
     validate_semantic_version v1 \<and> validate_semantic_version v2 \<and>
     separator_free v1 \<and> separator_free v2 \<and>
     within_digit_limit v1 \<and> within_digit_limit v2"
proof
  assume "\<exists>r. compare_versions v1 v2 = Inr r"
  then obtain r where "compare_versions v1 v2 = Inr r" by blast
  then obtain t1 t2 where v: "validate_semantic_version v1" "validate_semantic_version v2"
    and p: "parse_version v1 = Inr t1" "parse_version v2 = Inr t2"
    by (rule compare_versions_returned)
  from p(1) parse_version_returns_iff [OF v(1)]
  have "separator_free v1 \<and> within_digit_limit v1" by blast
  moreover from p(2) parse_version_returns_iff [OF v(2)]
  have "separator_free v2 \<and> within_digit_limit v2" by blast
  ultimately show "validate_semantic_version v1 \<and> validate_semantic_version v2 \<and>
     separator_free v1 \<and> separator_free v2 \<and>
     within_digit_limit v1 \<and> within_digit_limit v2" using v by simp
next
  assume "validate_semantic_version v1 \<and> validate_semantic_version v2 \<and>
     separator_free v1 \<and> separator_free v2 \<and>
     within_digit_limit v1 \<and> within_digit_limit v2"
  then show "\<exists>r. compare_versions v1 v2 = Inr r"
    using compare_versions_clean [of v1 v2] by blast
qed

lemma compare_versions_error:
  assumes "compare_versions v1 v2 = Inl err"
  shows "\<exists>ve. err = ValueError ve"
proof (cases "validate_semantic_version v1 \<and> validate_semantic_version v2")
  case False
  with assms show ?thesis by (auto simp: compare_versions_def)
next
  case True
  show ?thesis
  proof (cases "parse_version v1")
    case (Inl e1)
    with True assms have "err = e1" by (simp add: compare_versions_def)
    with Inl True parse_version_error [of v1 e1] show ?thesis by simp
  next
    case s: (Inr s)
    show ?thesis
    proof (cases "parse_version v2")
      case (Inl e2)
      with True s assms have "err = e2" by (simp add: compare_versions_def)
      with Inl True parse_version_error [of v2 e2] show ?thesis by simp
    next
      case (Inr t)
      with True s assms show ?thesis by (simp add: compare_versions_def)
    qed
  qed
qed

lemma compare_versions_flip:
  "compare_versions a b = Inr r \<Longrightarrow> compare_versions b a = Inr (- r)"
proof -
  assume r: "compare_versions a b = Inr r"
  then have v: "validate_semantic_version a" "validate_semantic_version b"
    by (auto simp: compare_versions_def split: if_splits)
  from r v obtain s where s: "parse_version a = Inr s"
    by (cases "parse_version a") (auto simp: compare_versions_def)
  from r v s obtain t where t: "parse_version b = Inr t"
    by (cases "parse_version b") (auto simp: compare_versions_def)
  from r v s t tuple_less_asym [of s t] tuple_less_asym [of t s] show ?thesis
    by (auto simp: compare_versions_def split: if_splits)
qed

lemma compare_versions_zero:
  "compare_versions a b = Inr 0 \<longleftrightarrow>
     validate_semantic_version a \<and> validate_semantic_version b \<and>
     (\<exists>t. parse_version a = Inr t \<and> parse_version b = Inr t)"
proof (cases "validate_semantic_version a \<and> validate_semantic_version b")
  case False
  then show ?thesis by (auto simp: compare_versions_def)
next
  case True
  show ?thesis
  proof (cases "parse_version a")
    case (Inl e)
    with True show ?thesis by (simp add: compare_versions_def)
  next
    case s: (Inr s)
    show ?thesis
    proof (cases "parse_version b")
      case (Inl e)
      with True s show ?thesis by (simp add: compare_versions_def)
    next
      case t: (Inr t)
      with True s tuple_less_trichotomy [of s t] show ?thesis
        by (auto simp: compare_versions_def)
    qed
  qed
qed

section \<open>The version file reader\<close>

lemma valid_nonempty: "validate_semantic_version v \<Longrightarrow> py_strip v \<noteq> []"
  unfolding validate_iff by auto

lemma read_version_result:
  "fst (read_version_from_file e p w) =
     (case read_file e p of
        Content c \<Rightarrow> if validate_semantic_version (py_strip c) then Some (py_strip c) else None
      | FileNotFound \<Rightarrow> None
      | ReadRaises t \<Rightarrow> None)"
  by (simp add: read_version_from_file_def Let_def split: read_result.splits)

lemmas eval_defs = validate_semantic_version_def re_match_anchored_def pattern_def
  number_group_def py_strip_def is_space_def is_decimal_def decimal_value_def nd_zeros_def
  py_int_def int_max_str_digits_def to_ascii_def c_isspace_def ascii_digit_def
  parse_version_def item_def compare_versions_def u_def

lemma strip_example: "py_strip (u '' 1.0.0 '' @ [10]) = u ''1.0.0''"
  by (simp add: py_strip_def is_space_def u_def)

lemma valid_example: "validate_semantic_version (u ''1.0.0'')"
  by (simp add: eval_defs)

lemma invalid_example: "\<not> validate_semantic_version (u ''1.0'')"
  by (simp add: eval_defs)

text \<open>
  C5. The version file reader returns the stripped file content when that content is a
  valid version and an absent value otherwise. Reading a file that contains
  \<open>" 1.0.0 \n"\<close> yields \<open>"1.0.0"\<close>, reading a path that does not exist yields the absent
  value, and reading a file that contains \<open>"1.0"\<close> yields the absent value.
\<close>

theorem read_version_from_file_value:
  "fst (read_version_from_file e p w) =
     (case read_file e p of
        Content c \<Rightarrow> if validate_semantic_version (py_strip c) then Some (py_strip c) else None
      | FileNotFound \<Rightarrow> None
      | ReadRaises t \<Rightarrow> None)
   \<and> (read_file e p = Content (u '' 1.0.0 '' @ [10]) \<longrightarrow>
        fst (read_version_from_file e p w) = Some (u ''1.0.0''))
   \<and> (read_file e p = FileNotFound \<longrightarrow> fst (read_version_from_file e p w) = None)
   \<and> (read_file e p = Content (u ''1.0'') \<longrightarrow> fst (read_version_from_file e p w) = None)"
proof -
  have s: "py_strip (u ''1.0'') = u ''1.0''" by (simp add: py_strip_def is_space_def u_def)
  have i: "\<not> validate_semantic_version (py_strip (u ''1.0''))"
    using invalid_example by (simp add: s)
  show ?thesis
    using valid_example i by (simp add: read_version_result strip_example)
qed

theorem read_version_from_file_value_witness:
  "read_file example_env (u ''VERSION'') = Content (u '' 1.0.0 '' @ [10])
   \<and> fst (read_version_from_file example_env (u ''VERSION'') quiet_world) = Some (u ''1.0.0'')
   \<and> read_file example_env (u ''MISSING'') = FileNotFound
   \<and> fst (read_version_from_file example_env (u ''MISSING'') quiet_world) = None
   \<and> read_file example_env (u ''SHORT'') = Content (u ''1.0'')
   \<and> fst (read_version_from_file example_env (u ''SHORT'') quiet_world) = None"
proof -
  have a: "read_file example_env (u ''VERSION'') = Content (u '' 1.0.0 '' @ [10])"
    by (simp add: example_env_def example_read_def)
  have b: "read_file example_env (u ''MISSING'') = FileNotFound"
    by (simp add: example_env_def example_read_def u_def)
  have c: "read_file example_env (u ''SHORT'') = Content (u ''1.0'')"
    by (simp add: example_env_def example_read_def u_def)
  show ?thesis
    using a b c
      read_version_from_file_value [of example_env "u ''VERSION''" quiet_world]
      read_version_from_file_value [of example_env "u ''MISSING''" quiet_world]
      read_version_from_file_value [of example_env "u ''SHORT''" quiet_world]
    by blast
qed

section \<open>The diagnostics of the file reader\<close>

text \<open>
  C8, as stated: the file reader writes its diagnostic to standard error. Reading a missing
  file leaves standard error empty and puts the message on standard output.
\<close>

theorem file_reader_missing_file_prints_to_stdout:
  "fst (read_version_from_file example_env (u ''MISSING'') quiet_world) = None
   \<and> stderr (snd (read_version_from_file example_env (u ''MISSING'') quiet_world)) = []
   \<and> stdout (snd (read_version_from_file example_env (u ''MISSING'') quiet_world))
       = [u ''Error: MISSING file not found'']"
  by (simp add: read_version_from_file_def example_env_def example_read_def quiet_world_def
        py_print_def u_def)

text \<open>
  C8, amended. When the version file is missing, its content is invalid, or reading it
  fails, so that the reader returns the absent value, it has written one diagnostic line
  to standard output before, and nothing to standard error.
\<close>

theorem file_reader_diagnostic_on_stdout:
  "(read_file e p = FileNotFound \<longrightarrow>
      read_version_from_file e p w =
        (None, w\<lparr>stdout := stdout w @ [u ''Error: '' @ p @ u '' file not found'']\<rparr>))
   \<and> (read_file e p = Content c \<and> \<not> validate_semantic_version (py_strip c) \<longrightarrow>
      read_version_from_file e p w =
        (None, w\<lparr>stdout := stdout w @
           [u ''Error: Invalid semantic version format in '' @ p @ u '': '' @ py_strip c]\<rparr>))
   \<and> (read_file e p = ReadRaises t \<longrightarrow>
      read_version_from_file e p w =
        (None, w\<lparr>stdout := stdout w @ [u ''Error reading '' @ p @ u '': '' @ t]\<rparr>))
   \<and> (fst (read_version_from_file e p w) = None \<longrightarrow>
      stderr (snd (read_version_from_file e p w)) = stderr w \<and>
      (\<exists>line. stdout (snd (read_version_from_file e p w)) = stdout w @ [line]))"
  by (simp add: read_version_from_file_def Let_def py_print_def split: read_result.splits)

theorem file_reader_diagnostic_on_stdout_witness:
  "read_version_from_file example_env (u ''MISSING'') quiet_world =
     (None, quiet_world\<lparr>stdout := stdout quiet_world @
        [u ''Error: '' @ u ''MISSING'' @ u '' file not found'']\<rparr>)
   \<and> read_version_from_file example_env (u ''SHORT'') quiet_world =
     (None, quiet_world\<lparr>stdout := stdout quiet_world @
        [u ''Error: Invalid semantic version format in '' @ u ''SHORT'' @ u '': ''
         @ py_strip (u ''1.0'')]\<rparr>)
   \<and> read_version_from_file example_env (u ''LOCKED'') quiet_world =
     (None, quiet_world\<lparr>stdout := stdout quiet_world @
        [u ''Error reading '' @ u ''LOCKED'' @ u '': '' @ u ''Permission denied'']\<rparr>)
   \<and> stderr (snd (read_version_from_file example_env (u ''SHORT'') quiet_world)) = []
   \<and> (\<exists>line. stdout (snd (read_version_from_file example_env (u ''SHORT'') quiet_world)) = [line])"
proof -
  have m: "read_file example_env (u ''MISSING'') = FileNotFound"
    by (simp add: example_env_def example_read_def u_def)
  have s: "read_file example_env (u ''SHORT'') = Content (u ''1.0'')"
    by (simp add: example_env_def example_read_def u_def)
  have l: "read_file example_env (u ''LOCKED'') = ReadRaises (u ''Permission denied'')"
    by (simp add: example_env_def example_read_def u_def)
  have "py_strip (u ''1.0'') = u ''1.0''" by (simp add: py_strip_def is_space_def u_def)
  then have i: "\<not> validate_semantic_version (py_strip (u ''1.0''))"
    using invalid_example by simp
  then have n: "fst (read_version_from_file example_env (u ''SHORT'') quiet_world) = None"
    using s by (simp add: read_version_result)
  have q: "stdout quiet_world = []" "stderr quiet_world = []" by (simp_all add: quiet_world_def)
  note t1 = file_reader_diagnostic_on_stdout
    [of example_env "u ''MISSING''" quiet_world "[]" "[]", THEN conjunct1]
  note t2 = file_reader_diagnostic_on_stdout
    [of example_env "u ''SHORT''" quiet_world "u ''1.0''" "[]", THEN conjunct2, THEN conjunct1]
  note t3 = file_reader_diagnostic_on_stdout
    [of example_env "u ''LOCKED''" quiet_world "[]" "u ''Permission denied''",
     THEN conjunct2, THEN conjunct2, THEN conjunct1]
  note t4 = file_reader_diagnostic_on_stdout
    [of example_env "u ''SHORT''" quiet_world "[]" "[]",
     THEN conjunct2, THEN conjunct2, THEN conjunct2]
  from t1 m t2 s i t3 l t4 n q show ?thesis by simp
qed

section \<open>The version-control tool and its output\<close>

lemma subprocess_run_checked:
  "subprocess_run e cmd True w =
     (case run e cmd of
        RunRaises t \<Rightarrow> Inl (OtherException t)
      | Completed rc out \<Rightarrow>
          if rc = 0 then Inr (0, out)
          else Inl (CalledProcessError (called_process_error_text e cmd rc)),
      w\<lparr>executed := executed w @ [cmd]\<rparr>)"
  by (auto simp: subprocess_run_def Let_def split: proc_result.splits)




lemma git_diff:
  "git r [u ''git'', u ''diff'', u ''--name-only'', c @ u ''^'', c] =
     completed name_lines (changed_files r c)"
proof -
  have "u ''diff'' \<noteq> u ''ls-remote''" by (simp add: u_def)
  then show ?thesis by (simp add: git_def)
qed

lemma git_show:
  "git r [u ''git'', u ''show'', c @ u '':VERSION''] =
     completed (\<lambda>content. content) (version_file r c)"
proof -
  have "length (u '':VERSION'') = 8" by (simp add: u_def)
  then show ?thesis by (simp add: git_def)
qed


lemma strip_padded:
  assumes "x \<noteq> []" "\<not> is_space (hd x)" "\<not> is_space (last x)" "list_all is_space r"
  shows "py_strip (x @ r) = x"
proof -
  from assms(1,2) have a: "dropWhile is_space (x @ r) = x @ r" by (cases x) auto
  have "rev x \<noteq> []" "\<not> is_space (hd (rev x))" using assms(1,3) by (simp_all add: hd_rev)
  then have b: "dropWhile is_space (rev x) = rev x" by (cases "rev x") auto
  have "dropWhile is_space (rev r @ rev x) = rev x"
    using assms(4) b by (simp add: dropWhile_append list_all_iff)
  with a show ?thesis by (simp add: py_strip_def)
qed

lemma name_lines_Cons: "name_lines (n # ns) = n @ 10 # name_lines ns"
  by (simp add: name_lines_def)

lemma name_lines_snoc: "name_lines (ns @ [n]) = name_lines ns @ n @ [10]"
  by (simp add: name_lines_def)

lemma split_lines:
  "\<forall>m\<in>set ns. 10 \<notin> set m \<Longrightarrow> 10 \<notin> set n \<Longrightarrow> py_split 10 (name_lines ns @ n) = ns @ [n]"
  by (induction ns) (simp_all add: name_lines_Cons split_at_sep split_no_sep name_lines_def)

lemma listing_of_plain_names:
  assumes "list_all plain_name names"
  shows "set (py_split 10 (py_strip (name_lines names))) = (if names = [] then {[]} else set names)"
proof (cases names rule: rev_cases)
  case Nil
  have "py_strip [] = []" by (simp add: py_strip_def)
  with Nil show ?thesis by (simp add: name_lines_def)
next
  case (snoc ns n)
  with assms have p: "\<forall>m\<in>set ns. plain_name m" "plain_name n" by (simp_all add: list_all_iff)
  let ?x = "name_lines ns @ n"
  have n: "n \<noteq> []" "\<not> is_space (hd n)" "\<not> is_space (last n)" "10 \<notin> set n"
    using p(2) by (simp_all add: plain_name_def)
  have x: "?x \<noteq> []" "\<not> is_space (last ?x)" using n by simp_all
  have h: "\<not> is_space (hd ?x)"
  proof (cases ns)
    case Nil
    with n show ?thesis by (simp add: name_lines_def)
  next
    case (Cons m ms)
    with p(1) have "m \<noteq> []" "\<not> is_space (hd m)" by (simp_all add: plain_name_def)
    with Cons show ?thesis by (simp add: name_lines_Cons)
  qed
  have "is_space 10" by (simp add: is_space_def)
  then have "py_strip (?x @ [10]) = ?x" using strip_padded [OF x(1) h x(2), of "[10]"] by simp
  then have "py_strip (name_lines names) = ?x" by (simp add: snoc name_lines_snoc)
  moreover have "py_split 10 ?x = ns @ [n]"
    using p(1) n(4) by (intro split_lines) (auto simp: plain_name_def)
  ultimately show ?thesis using snoc by simp
qed

section \<open>The commit version-change detector\<close>

lemma commit_change_some:
  "fst (get_git_commit_version_change e h w) = Some v \<longleftrightarrow>
     (\<exists>out out2. run e (diff_cmd h) = Completed 0 out \<and>
        u ''VERSION'' \<in> set (py_split 10 (py_strip out)) \<and>
        run e (show_cmd h) = Completed 0 out2 \<and>
        validate_semantic_version (py_strip out2) \<and> v = py_strip out2)"
  unfolding get_git_commit_version_change_def subprocess_run_checked Let_def
  by (cases "run e (diff_cmd h)"; cases "run e (show_cmd h)") auto

lemma commit_change_on_repository:
  assumes "run e = git r"
  shows "get_git_commit_version_change e c w =
     (let diff = [u ''git'', u ''diff'', u ''--name-only'', c @ u ''^'', c];
          show = [u ''git'', u ''show'', c @ u '':VERSION''];
          w1 = w\<lparr>executed := executed w @ [diff]\<rparr>;
          w2 = w\<lparr>executed := executed w @ [diff, show]\<rparr>
      in case changed_files r c of
           Raises t \<Rightarrow> (None, py_print (u ''Unexpected error: '' @ t) w1)
         | Fails n out \<Rightarrow>
             (None, py_print (u ''Error checking git commit changes: ''
                              @ called_process_error_text e diff (1 + int n)) w1)
         | Answers names \<Rightarrow>
             if u ''VERSION'' \<in> set (py_split 10 (py_strip (name_lines names))) then
               (case version_file r c of
                  Raises t \<Rightarrow> (None, py_print (u ''Unexpected error: '' @ t) w2)
                | Fails n out \<Rightarrow>
                    (None, py_print (u ''Error checking git commit changes: ''
                                     @ called_process_error_text e show (1 + int n)) w2)
                | Answers content \<Rightarrow>
                    if validate_semantic_version (py_strip content)
                    then (Some (py_strip content), w2)
                    else (None, py_print (u ''Error: Invalid version format in commit '' @ c
                                          @ u '': '' @ py_strip content) w2))
             else (None, w1))"
proof -
  have d: "run e (diff_cmd c) = completed name_lines (changed_files r c)"
    by (simp add: assms diff_cmd_def git_diff)
  have s: "run e (show_cmd c) = completed (\<lambda>content. content) (version_file r c)"
    by (simp add: assms show_cmd_def git_show)
  show ?thesis
    unfolding get_git_commit_version_change_def subprocess_run_checked d s Let_def
    by (cases "changed_files r c"; cases "version_file r c")
       (simp_all add: diff_cmd_def show_cmd_def)
qed

lemma commit_change_plain_names:
  assumes "run e = git r" "changed_files r c = Answers names" "list_all plain_name names"
  shows "fst (get_git_commit_version_change e c w) =
     (if u ''VERSION'' \<in> set names then
        (case version_file r c of
           Answers content \<Rightarrow>
             if validate_semantic_version (py_strip content) then Some (py_strip content) else None
         | Fails n out \<Rightarrow> None
         | Raises t \<Rightarrow> None)
      else None)"
proof -
  have v: "u ''VERSION'' \<noteq> []" by (simp add: u_def)
  have "u ''VERSION'' \<in> set (py_split 10 (py_strip (name_lines names))) \<longleftrightarrow>
        u ''VERSION'' \<in> set names"
    using v by (simp add: listing_of_plain_names [OF assms(3)])
  then show ?thesis
    unfolding commit_change_on_repository [OF assms(1)] Let_def assms(2)
    by (cases "version_file r c") simp_all
qed

lemma example_runs_git: "run example_env = git example_repo"
  by (simp add: example_env_def)

lemma example_commit_head:
  "fst (get_git_commit_version_change example_env (u ''HEAD'') quiet_world) = Some (u ''1.2.3'')"
proof -
  have c: "changed_files example_repo (u ''HEAD'') = Answers [u ''README.md'', u ''VERSION'']"
    by (simp add: example_repo_def example_changes_def)
  have p: "list_all plain_name [u ''README.md'', u ''VERSION'']"
    by (simp add: plain_name_def is_space_def u_def)
  have f: "version_file example_repo (u ''HEAD'') = Answers (u ''1.2.3'' @ [10])"
    by (simp add: example_repo_def example_versions_def)
  have s: "py_strip (u ''1.2.3'' @ [10]) = u ''1.2.3''"
    by (simp add: py_strip_def is_space_def u_def)
  have v: "validate_semantic_version (u ''1.2.3'')" by (simp add: eval_defs)
  show ?thesis
    by (simp add: commit_change_plain_names [OF example_runs_git c p] f s v)
qed

lemma example_commit_docs:
  "fst (get_git_commit_version_change example_env (u ''DOCS'') quiet_world) = None"
proof -
  have c: "changed_files example_repo (u ''DOCS'') = Answers [u ''README.md'']"
    by (simp add: example_repo_def example_changes_def u_def)
  have p: "list_all plain_name [u ''README.md'']"
    by (simp add: plain_name_def is_space_def u_def)
  have n: "u ''VERSION'' \<noteq> u ''README.md''" by (simp add: u_def)
  show ?thesis
    using n by (simp add: commit_change_plain_names [OF example_runs_git c p])
qed

text \<open>
  C6. The commit version-change detector returns the version recorded in the commit when
  \<open>VERSION\<close> is among the files changed between the commit's parent and the commit, and
  the absent value when the file did not change. The commit \<open>SPACED\<close> changed only the
  file \<open>" VERSION"\<close>; the listing is stripped as a whole before it is split into lines,
  so its first line loses the blank and reads \<open>VERSION\<close>, and the detector returns the
  version of the unchanged file.
\<close>

theorem commit_detector_reports_unchanged_file:
  "changed_files example_repo (u ''SPACED'') = Answers [u '' VERSION'']
   \<and> u ''VERSION'' \<notin> set [u '' VERSION'']
   \<and> version_file example_repo (u ''SPACED'') = Answers (u ''1.2.3'' @ [10])
   \<and> fst (get_git_commit_version_change example_env (u ''SPACED'') quiet_world)
       = Some (u ''1.2.3'')"
proof -
  have c: "changed_files example_repo (u ''SPACED'') = Answers [u '' VERSION'']"
    by (simp add: example_repo_def example_changes_def u_def)
  have f: "version_file example_repo (u ''SPACED'') = Answers (u ''1.2.3'' @ [10])"
    by (simp add: example_repo_def example_versions_def u_def)
  have n: "u ''VERSION'' \<notin> set [u '' VERSION'']" by (simp add: u_def)
  have l: "py_split 10 (py_strip (name_lines [u '' VERSION''])) = [u ''VERSION'']"
    by (simp add: name_lines_def py_strip_def is_space_def u_def)
  have s: "py_strip (u ''1.2.3'' @ [10]) = u ''1.2.3''"
    by (simp add: py_strip_def is_space_def u_def)
  have v: "validate_semantic_version (u ''1.2.3'')" by (simp add: eval_defs)
  have "fst (get_git_commit_version_change example_env (u ''SPACED'') quiet_world)
       = Some (u ''1.2.3'')"
    by (simp add: commit_change_on_repository [OF example_runs_git] Let_def c f l s v)
  with c f n show ?thesis by simp
qed

theorem commit_detector_reports_unchanged_file_witness:
  "fst (get_git_commit_version_change example_env (u ''SPACED'') quiet_world) \<noteq> None"
  using commit_detector_reports_unchanged_file by simp

section \<open>What the reader and the detector hand to their callers\<close>

lemma returned_valid:
  assumes "validate_semantic_version (py_strip c)"
  shows "validate_semantic_version (py_strip c) \<and> py_strip (py_strip c) = py_strip c \<and>
         py_strip c \<noteq> [] \<and> \<not> is_space (hd (py_strip c)) \<and> \<not> is_space (last (py_strip c))"
proof -
  have "py_strip (py_strip c) \<noteq> []" using assms by (rule valid_nonempty)
  then have ne: "py_strip c \<noteq> []" by (simp add: strip_idem)
  with assms show ?thesis
    by (simp add: strip_idem strip_no_leading_space strip_no_trailing_space)
qed

text \<open>
  C10. Every version that the file reader or the commit version-change detector returns
  passes the format validator and is its own stripped form: it is not empty and neither
  begins nor ends with white space.
\<close>

theorem returned_versions_are_valid_and_stripped:
  assumes "fst (read_version_from_file e p w) = Some v \<or>
           fst (get_git_commit_version_change e h w) = Some v"
  shows "validate_semantic_version v \<and> py_strip v = v \<and>
         v \<noteq> [] \<and> \<not> is_space (hd v) \<and> \<not> is_space (last v)"
  using assms
proof
  assume "fst (read_version_from_file e p w) = Some v"
  then obtain c where "validate_semantic_version (py_strip c)" "v = py_strip c"
    by (auto simp: read_version_result split: read_result.splits if_splits)
  then show ?thesis using returned_valid [of c] by simp
next
  assume "fst (get_git_commit_version_change e h w) = Some v"
  then obtain c where "validate_semantic_version (py_strip c)" "v = py_strip c"
    unfolding commit_change_some by blast
  then show ?thesis using returned_valid [of c] by simp
qed

theorem returned_versions_are_valid_and_stripped_witness:
  "fst (read_version_from_file example_env (u ''VERSION'') quiet_world) = Some (u ''1.0.0'')
   \<and> validate_semantic_version (u ''1.0.0'') \<and> py_strip (u ''1.0.0'') = u ''1.0.0''
   \<and> \<not> is_space (hd (u ''1.0.0'')) \<and> \<not> is_space (last (u ''1.0.0''))
   \<and> fst (get_git_commit_version_change example_env (u ''HEAD'') quiet_world) = Some (u ''1.2.3'')
   \<and> validate_semantic_version (u ''1.2.3'') \<and> py_strip (u ''1.2.3'') = u ''1.2.3''
   \<and> \<not> is_space (hd (u ''1.2.3'')) \<and> \<not> is_space (last (u ''1.2.3''))"
proof -
  have a: "fst (read_version_from_file example_env (u ''VERSION'') quiet_world) = Some (u ''1.0.0'')"
    by (simp add: read_version_result example_env_def example_read_def strip_example valid_example)
  have b: "fst (get_git_commit_version_change example_env (u ''HEAD'') quiet_world)
             = Some (u ''1.2.3'')"
    by (rule example_commit_head)
  from a have "fst (read_version_from_file example_env (u ''VERSION'') quiet_world) = Some (u ''1.0.0'')
      \<or> fst (get_git_commit_version_change example_env (u ''HEAD'') quiet_world) = Some (u ''1.0.0'')"
    by simp
  note r = returned_versions_are_valid_and_stripped [OF this]
  from b have "fst (read_version_from_file example_env (u ''VERSION'') quiet_world) = Some (u ''1.2.3'')
      \<or> fst (get_git_commit_version_change example_env (u ''HEAD'') quiet_world) = Some (u ''1.2.3'')"
    by simp
  note c = returned_versions_are_valid_and_stripped [OF this]
  from a b r c show ?thesis by simp
qed

section \<open>The tag-existence checker\<close>

lemma tag_name: "u ''v'' @ version = 118 # version"
  by (simp add: u_def)














section \<open>The command dispatcher\<close>

text \<open>
  The dispatcher returns the exit status of the process, or the exception that leaves
  \<open>main\<close> uncaught, in which case the interpreter exits with status 1
  (\<open>exit_status\<close>). The lines with a check mark or a cross are written through
  \<open>print_marked\<close>, which raises when the encoding of standard output has no such
  character.
\<close>

lemma read_version_nonempty:
  "read_version_from_file e p w = (Some v, w') \<Longrightarrow> v \<noteq> []"
proof -
  assume a: "read_version_from_file e p w = (Some v, w')"
  then have "fst (read_version_from_file e p w) = Some v" by simp
  then obtain c where "validate_semantic_version (py_strip c)" "v = py_strip c"
    by (auto simp: read_version_result split: read_result.splits if_splits)
  then show ?thesis using returned_valid [of c] by simp
qed

lemma commit_change_nonempty:
  "get_git_commit_version_change e h w = (Some v, w') \<Longrightarrow> v \<noteq> []"
proof -
  assume a: "get_git_commit_version_change e h w = (Some v, w')"
  then have "fst (get_git_commit_version_change e h w) = Some v" by simp
  then obtain c where "validate_semantic_version (py_strip c)" "v = py_strip c"
    unfolding commit_change_some by blast
  then show ?thesis using returned_valid [of c] by simp
qed

lemma command_names_differ:
  "u ''check-tag'' \<noteq> u ''validate''"
  "u ''read-version'' \<noteq> u ''validate''" "u ''read-version'' \<noteq> u ''check-tag''"
  "u ''compare'' \<noteq> u ''validate''" "u ''compare'' \<noteq> u ''check-tag''"
  "u ''compare'' \<noteq> u ''read-version''"
  "u ''check-commit'' \<noteq> u ''validate''" "u ''check-commit'' \<noteq> u ''check-tag''"
  "u ''check-commit'' \<noteq> u ''read-version''" "u ''check-commit'' \<noteq> u ''compare''"
  by (simp_all add: u_def)

lemma exit_status_finish:
  "exit_status (fst (finish n (print_marked e line w) w)) = (if stdout_encodes_marks e then n else 1)"
  by (simp add: finish_def print_marked_def)

lemma main_no_command:
  "length argv < 2 \<Longrightarrow> main e argv w = (Inr 1, w\<lparr>stdout := stdout w @ usage_lines\<rparr>)"
  by (simp add: main_def usage_lines_def py_print_def)

lemma main_validate:
  assumes "2 \<le> length argv" "argv ! 1 = u ''validate''"
  shows "main e argv w =
     (if length argv \<noteq> 3
      then (Inr 1, py_print (u ''Usage: python version_utils.py validate <version>'') w)
      else if validate_semantic_version (argv ! 2)
        then finish 0 (print_marked e (check_mark @ u '' Version '' @ argv ! 2 @ u '' is valid'') w) w
        else finish 1 (print_marked e (cross_mark @ u '' Version '' @ argv ! 2 @ u '' is invalid'') w) w)"
  using assms by (simp add: main_def Let_def)

lemma main_validate_status:
  assumes "argv ! 1 = u ''validate''" "length argv = 3"
  shows "exit_status (fst (main e argv w)) =
     (if validate_semantic_version (argv ! 2) \<and> stdout_encodes_marks e then 0 else 1)"
  using assms by (simp add: main_validate exit_status_finish)

lemma main_unknown:
  assumes "2 \<le> length argv" "argv ! 1 \<noteq> u ''validate''" "argv ! 1 \<noteq> u ''check-tag''"
    "argv ! 1 \<noteq> u ''read-version''" "argv ! 1 \<noteq> u ''compare''" "argv ! 1 \<noteq> u ''check-commit''"
  shows "main e argv w = (Inr 1, py_print (u ''Unknown command: '' @ argv ! 1) w)"
  using assms by (simp add: main_def Let_def)

lemma main_check_tag:
  assumes "2 \<le> length argv" "argv ! 1 = u ''check-tag''"
  shows "main e argv w =
     (if length argv \<noteq> 3
      then (Inr 1, py_print (u ''Usage: python version_utils.py check-tag <version>'') w)
      else if fst (git_tag_exists e (argv ! 2) w)
        then finish 1
               (print_marked e (cross_mark @ u '' Tag v'' @ argv ! 2 @ u '' already exists'')
                  (snd (git_tag_exists e (argv ! 2) w)))
               (snd (git_tag_exists e (argv ! 2) w))
        else finish 0
               (print_marked e (check_mark @ u '' Tag v'' @ argv ! 2 @ u '' does not exist'')
                  (snd (git_tag_exists e (argv ! 2) w)))
               (snd (git_tag_exists e (argv ! 2) w)))"
proof -
  obtain b w1 where g: "git_tag_exists e (argv ! 2) w = (b, w1)"
    by (cases "git_tag_exists e (argv ! 2) w")
  show ?thesis
    using assms by (cases b) (simp_all add: main_def Let_def command_names_differ g)
qed

lemma main_check_tag_status:
  assumes "argv ! 1 = u ''check-tag''" "length argv = 3"
  shows "exit_status (fst (main e argv w)) =
     (if \<not> fst (git_tag_exists e (argv ! 2) w) \<and> stdout_encodes_marks e then 0 else 1)"
  using assms by (simp add: main_check_tag exit_status_finish)

lemma main_read_version:
  assumes "2 \<le> length argv" "argv ! 1 = u ''read-version''"
  shows "fst (main e argv w) =
     Inr (if fst (read_version_from_file e (if 2 < length argv then argv ! 2 else u ''VERSION'') w) = None
          then 1 else 0)"
proof -
  let ?p = "if 2 < length argv then argv ! 2 else u ''VERSION''"
  obtain r w' where r: "read_version_from_file e ?p w = (r, w')"
    by (cases "read_version_from_file e ?p w")
  have m: "main e argv w =
      (case read_version_from_file e ?p w of
         (Some version, w1) \<Rightarrow> if version \<noteq> [] then (Inr 0, py_print version w1) else (Inr 1, w1)
       | (None, w1) \<Rightarrow> (Inr 1, w1))"
    using assms by (simp add: main_def Let_def command_names_differ)
  show ?thesis
  proof (cases r)
    case None
    with r show ?thesis unfolding m by simp
  next
    case (Some v)
    with r have "v \<noteq> []" using read_version_nonempty by blast
    with Some r show ?thesis unfolding m by simp
  qed
qed

lemma main_check_commit:
  assumes "2 \<le> length argv" "argv ! 1 = u ''check-commit''"
  shows "fst (main e argv w) =
     Inr (if fst (get_git_commit_version_change e (if 2 < length argv then argv ! 2 else u ''HEAD'') w) = None
          then 1 else 0)"
proof -
  let ?h = "if 2 < length argv then argv ! 2 else u ''HEAD''"
  obtain r w' where r: "get_git_commit_version_change e ?h w = (r, w')"
    by (cases "get_git_commit_version_change e ?h w")
  have m: "main e argv w =
      (case get_git_commit_version_change e ?h w of
         (Some version, w1) \<Rightarrow>
           if version \<noteq> [] then (Inr 0, py_print version w1)
           else (Inr 1, py_print (u ''No version change detected'') w1)
       | (None, w1) \<Rightarrow> (Inr 1, py_print (u ''No version change detected'') w1))"
    using assms by (simp add: main_def Let_def command_names_differ)
  show ?thesis
  proof (cases r)
    case None
    with r show ?thesis unfolding m by simp
  next
    case (Some v)
    with r have "v \<noteq> []" using commit_change_nonempty by blast
    with Some r show ?thesis unfolding m by simp
  qed
qed

lemma main_compare_usage:
  assumes "2 \<le> length argv" "argv ! 1 = u ''compare''" "length argv \<noteq> 4"
  shows "main e argv w =
     (Inr 1, py_print (u ''Usage: python version_utils.py compare <version1> <version2>'') w)"
  using assms by (simp add: main_def Let_def command_names_differ)

lemma main_compare:
  assumes "argv ! 1 = u ''compare''" "length argv = 4"
  shows "fst (main e argv w) =
     Inr (case compare_versions (argv ! 2) (argv ! 3) of Inr r \<Rightarrow> 0 | Inl err \<Rightarrow> 1)"
proof -
  have m: "main e argv w =
     (case compare_versions (argv ! 2) (argv ! 3) of
        Inr result \<Rightarrow>
          (Inr 0,
           py_print
             (if result = - 1 then argv ! 2 @ u '' < '' @ argv ! 3
              else if result = 0 then argv ! 2 @ u '' = '' @ argv ! 3
              else argv ! 2 @ u '' > '' @ argv ! 3) w)
      | Inl (ValueError ve) \<Rightarrow> (Inr 1, py_print (u ''Error: '' @ value_error_text e ve) w)
      | Inl err \<Rightarrow> (Inl err, w))"
    using assms by (simp add: main_def Let_def command_names_differ)
  show ?thesis
  proof (cases "compare_versions (argv ! 2) (argv ! 3)")
    case (Inr r)
    then show ?thesis unfolding m by simp
  next
    case (Inl err)
    with compare_versions_error [of "argv ! 2" "argv ! 3" err]
    obtain ve where "err = ValueError ve" by blast
    with Inl show ?thesis unfolding m by simp
  qed
qed

text \<open>
  C7. The dispatcher validates the argument count against each sub-command's arity
  (\<open>read-version\<close>: 0 to 1) and exits with status 1 and usage text on any arity
  violation. Called as \<open>version_utils.py read-version VERSION extra\<close>, two arguments
  where at most one is allowed, it reads the file, prints the version and exits with
  status 0: the branches of \<open>validate\<close>, \<open>check-tag\<close> and \<open>compare\<close> compare
  \<open>len(sys.argv)\<close> with their arity, the branches of \<open>read-version\<close> and
  \<open>check-commit\<close> only test \<open>len(sys.argv) > 2\<close>.
\<close>

theorem dispatcher_accepts_extra_argument:
  "main example_env [u ''version_utils.py'', u ''read-version'', u ''VERSION'', u ''extra''] quiet_world
     = (Inr 0, quiet_world\<lparr>stdout := [u ''1.0.0'']\<rparr>)"
proof -
  have ne: "u ''1.0.0'' \<noteq> []" by (simp add: u_def)
  have r: "read_version_from_file example_env (u ''VERSION'') quiet_world = (Some (u ''1.0.0''), quiet_world)"
    by (simp add: read_version_from_file_def example_env_def example_read_def strip_example
          valid_example)
  have "main example_env [u ''version_utils.py'', u ''read-version'', u ''VERSION'', u ''extra'']
          quiet_world = (Inr 0, py_print (u ''1.0.0'') quiet_world)"
    using ne by (simp add: main_def Let_def command_names_differ r)
  then show ?thesis by (simp add: py_print_def quiet_world_def)
qed

theorem dispatcher_accepts_extra_argument_witness:
  "exit_status (fst (main example_env
      [u ''version_utils.py'', u ''read-version'', u ''VERSION'', u ''extra''] quiet_world)) = 0"
  using dispatcher_accepts_extra_argument by simp

section \<open>Where the validator does what is specified\<close>

text \<open>
  The validator agrees with the specification's wording on every input whose decimal
  digits are all among \<open>0\<close>..\<open>9\<close>.
\<close>

lemma split_nonempty: "py_split sep s \<noteq> []"
  by (induction s) (auto split: list.splits)

lemma split_first:
  "py_split sep s = p # ps \<Longrightarrow>
   sep \<notin> set p \<and> (if ps = [] then s = p else (\<exists>r. s = p @ sep # r \<and> py_split sep r = ps))"
proof (induction s arbitrary: p ps)
  case Nil
  then show ?case by simp
next
  case (Cons x s)
  show ?case
  proof (cases "x = sep")
    case True
    with Cons.prems have "p = []" "ps = py_split sep s" by simp_all
    with True show ?thesis by (simp add: split_nonempty)
  next
    case False
    obtain q qs where q: "py_split sep s = q # qs"
      using split_nonempty [of sep s] by (cases "py_split sep s") auto
    with False Cons.prems have p: "p = x # q" "ps = qs" by simp_all
    from Cons.IH [OF q] False p show ?thesis by auto
  qed
qed

lemma split_three:
  "py_split sep s = [a, b, c] \<longleftrightarrow>
     s = a @ sep # b @ sep # c \<and> sep \<notin> set a \<and> sep \<notin> set b \<and> sep \<notin> set c"
proof
  assume s: "py_split sep s = [a, b, c]"
  from split_first [OF s] obtain r where a: "sep \<notin> set a" "s = a @ sep # r"
    and r: "py_split sep r = [b, c]" by auto
  from split_first [OF r] obtain r' where b: "sep \<notin> set b" "r = b @ sep # r'"
    and r': "py_split sep r' = [c]" by auto
  from split_first [OF r'] have "sep \<notin> set c" "r' = c" by auto
  with a b show "s = a @ sep # b @ sep # c \<and> sep \<notin> set a \<and> sep \<notin> set b \<and> sep \<notin> set c"
    by simp
next
  assume "s = a @ sep # b @ sep # c \<and> sep \<notin> set a \<and> sep \<notin> set b \<and> sep \<notin> set c"
  then show "py_split sep s = [a, b, c]" by (simp add: split_at_sep split_no_sep)
qed

lemma strict_version_number_no_dot: "strict_version_number g \<Longrightarrow> 46 \<notin> set g"
  by (auto simp: strict_version_number_def list_all_iff ascii_digit_def)

lemma strict_version_iff:
  "strict_version s \<longleftrightarrow>
     (\<exists>a b c. py_strip s = a @ 46 # b @ 46 # c \<and>
        strict_version_number a \<and> strict_version_number b \<and> strict_version_number c)"
proof
  assume "strict_version s"
  then obtain a b c where "py_split 46 (py_strip s) = [a, b, c]"
    and n: "strict_version_number a" "strict_version_number b" "strict_version_number c"
    by (auto simp: strict_version_def split: list.splits)
  then have "py_strip s = a @ 46 # b @ 46 # c" by (simp add: split_three)
  with n show "\<exists>a b c. py_strip s = a @ 46 # b @ 46 # c \<and>
        strict_version_number a \<and> strict_version_number b \<and> strict_version_number c"
    by blast
next
  assume "\<exists>a b c. py_strip s = a @ 46 # b @ 46 # c \<and>
        strict_version_number a \<and> strict_version_number b \<and> strict_version_number c"
  then obtain a b c where c: "py_strip s = a @ 46 # b @ 46 # c"
    and n: "strict_version_number a" "strict_version_number b" "strict_version_number c"
    by blast
  then have "py_split 46 (py_strip s) = [a, b, c]"
    by (simp add: split_three strict_version_number_no_dot)
  with n show "strict_version s" by (simp add: strict_version_def)
qed

lemma ascii_digit_decimal: "ascii_digit c \<Longrightarrow> is_decimal c"
  by (simp add: ascii_digit_def is_decimal_def decimal_value_ascii)

lemma strict_is_version_number: "strict_version_number g \<Longrightarrow> version_number g"
  by (cases g) (auto simp: strict_version_number_def ascii_digit_def list_all_iff
                     intro: ascii_digit_decimal)

lemma version_number_is_strict:
  "version_number g \<Longrightarrow> \<forall>c\<in>set g. is_decimal c \<longrightarrow> ascii_digit c \<Longrightarrow> strict_version_number g"
  by (cases g) (auto simp: strict_version_number_def ascii_digit_def list_all_iff)

lemma strip_subset: "set (py_strip s) \<subseteq> set s"
proof -
  obtain l r where "s = l @ py_strip s @ r" using strip_decompose [of s] by blast
  then have "set s = set l \<union> set (py_strip s) \<union> set r" by (metis set_append Un_assoc)
  then show ?thesis by blast
qed

lemma validate_is_strict_on_ascii_digits:
  assumes "\<forall>c\<in>set v. is_decimal c \<longrightarrow> ascii_digit c"
  shows "validate_semantic_version v \<longleftrightarrow> strict_version v"
proof
  assume "validate_semantic_version v"
  then obtain a b c where core: "py_strip v = a @ 46 # b @ 46 # c"
    and n: "version_number a" "version_number b" "version_number c"
    unfolding validate_iff by blast
  have "set a \<subseteq> set v" "set b \<subseteq> set v" "set c \<subseteq> set v"
    using strip_subset [of v] core by auto
  with assms n have "strict_version_number a" "strict_version_number b" "strict_version_number c"
    by (auto intro!: version_number_is_strict)
  with core show "strict_version v" unfolding strict_version_iff by blast
next
  assume "strict_version v"
  then show "validate_semantic_version v"
    unfolding strict_version_iff validate_iff
    by (blast intro: strict_is_version_number)
qed

section \<open>Inputs on which the validator and the comparison go wrong\<close>

lemma compare_examples:
  "compare_versions (u ''1.2.3'') (u ''1.2.3'') = Inr 0"
  "compare_versions (u ''1.2.3'') (u ''1.3.0'') = Inr (- 1)"
  "compare_versions (u ''2.0.0'') (u ''1.9.9'') = Inr 1"
  "compare_versions (u ''1.2'') (u ''1.0.0'') = Inl (ValueError BothVersionsInvalid)"
  "compare_versions (u ''1.0.0'') (u ''abc'') = Inl (ValueError BothVersionsInvalid)"
  by (simp_all add: eval_defs)

text \<open>
  C1. For every pair of version strings that both pass format validation,
  \<open>compare_versions\<close> parses each into its triple of integers and returns -1, 0 or 1 by
  the lexicographic order of the triples. The pair \<open>"\x1c1.2.3"\<close>, \<open>"1.3.0"\<close> passes
  validation, the leading separator being stripped, and the comparison raises in \<open>int\<close>
  instead of returning -1.
\<close>

theorem compare_versions_leading_separator:
  "validate_semantic_version (28 # u ''1.2.3'') \<and> validate_semantic_version (u ''1.3.0'')
   \<and> compare_versions (28 # u ''1.2.3'') (u ''1.3.0'')
       = Inl (ValueError (InvalidLiteral (28 # u ''1'')))"
  by (simp add: eval_defs)

theorem compare_versions_leading_separator_witness:
  "compare_versions (28 # u ''1.2.3'') (u ''1.3.0'') \<noteq> Inr (- 1)"
  using compare_versions_leading_separator by simp

text \<open>
  C4. \<open>compare_versions\<close> raises exactly when one of its arguments fails format
  validation. The arguments \<open>"2.0.0\x1f"\<close> and \<open>"1.9.9"\<close> are both valid, and the
  comparison raises \<open>ValueError\<close>.
\<close>

theorem compare_versions_trailing_separator:
  "validate_semantic_version (u ''2.0.0'' @ [31]) \<and> validate_semantic_version (u ''1.9.9'')
   \<and> compare_versions (u ''2.0.0'' @ [31]) (u ''1.9.9'')
       = Inl (ValueError (InvalidLiteral (u ''0'' @ [31])))"
  by (simp add: eval_defs)

theorem compare_versions_trailing_separator_witness:
  "\<not> (\<exists>result. compare_versions (u ''2.0.0'' @ [31]) (u ''1.9.9'') = Inr result)"
  using compare_versions_trailing_separator by simp

text \<open>
  C9. On valid versions the comparison is a total order, and comparing a version with
  itself gives 0. The version \<open>"1.0.0\x1d"\<close> is valid, and comparing it with itself
  raises.
\<close>

theorem compare_versions_self_raises:
  "validate_semantic_version (u ''1.0.0'' @ [29])
   \<and> compare_versions (u ''1.0.0'' @ [29]) (u ''1.0.0'' @ [29])
       = Inl (ValueError (InvalidLiteral (u ''0'' @ [29])))"
  by (simp add: eval_defs)

theorem compare_versions_self_raises_witness:
  "compare_versions (u ''1.0.0'' @ [29]) (u ''1.0.0'' @ [29]) \<noteq> Inr 0"
  using compare_versions_self_raises by simp

text \<open>
  C2. The validator returns true exactly when the stripped input is three dot-separated
  groups, each the single digit 0 or a digit sequence not starting with 0. The input
  \<open>"1\u0663.0.0"\<close>, whose first group ends in ARABIC-INDIC DIGIT THREE, is accepted
  although that group is no sequence of the digits 0..9; and the same character, a
  decimal digit for \<open>\d\<close>, is rejected at the head of a group.
\<close>

theorem validate_accepts_non_ascii_digit:
  "validate_semantic_version (u ''1'' @ [1635] @ u ''.0.0'')
   \<and> \<not> strict_version (u ''1'' @ [1635] @ u ''.0.0'')
   \<and> is_decimal 1635
   \<and> \<not> validate_semantic_version ([1635] @ u ''.0.0'')"
  by (simp add: eval_defs strict_version_def strict_version_number_def)

end
